theory Spec2Isabelle
  imports Main "HOL-Library.Word"
begin

section \<open>Import Finder (impfi): data model\<close>

text \<open>
  The program (src/impfi/impfi.cpp) reads Windows executables with \<^verbatim>\<open>fread\<close> and
  \<^verbatim>\<open>fseek\<close> on a binary stream. A byte is a C \<^verbatim>\<open>char\<close>, modelled by the 8-bit type
  \<^typ>\<open>char\<close>; \<^verbatim>\<open>WORD\<close> and \<^verbatim>\<open>DWORD\<close> are 16- and 32-bit words whose arithmetic wraps.
\<close>

type_synonym byte = char
type_synonym WORD = "16 word"
type_synonym DWORD = "32 word"

text \<open>A little-endian integer field overlaid on the bytes read (x86, x64 and IA-64 Windows).\<close>

definition le_word :: "byte list \<Rightarrow> 'a::len word" where
  "le_word bs = of_nat (foldr (\<lambda>b acc. of_char b + 256 * acc) bs 0)"

text \<open>
  An opened stream: the bytes of the file and the read position. The program opens every
  file with mode \<^verbatim>\<open>"rb"\<close> and never writes.
\<close>

record FILE =
  content :: "byte list"
  pos :: nat

text \<open>
  \<^verbatim>\<open>fseek(f, (long)Offset, SEEK_SET)\<close>. \<^verbatim>\<open>long\<close> is 32 bits wide on Windows, so an offset
  with the top bit set is a negative position and the call fails; a position past the end
  of the file is accepted (the next read fails).
\<close>

definition fseek :: "FILE \<Rightarrow> DWORD \<Rightarrow> FILE option" where
  "fseek f Offset = (if sint Offset < 0 then None else Some (f\<lparr>pos := unat Offset\<rparr>))"

text \<open>
  \<^verbatim>\<open>fread(buf, n, 1, f)\<close>: one element of \<open>n\<close> bytes. The result is 1 exactly when \<open>n\<close> bytes
  are left; every caller returns at once on any other result, so a short read is \<open>None\<close>.
\<close>

definition fread :: "FILE \<Rightarrow> nat \<Rightarrow> (byte list \<times> FILE) option" where
  "fread f n =
     (if pos f + n \<le> length (content f)
      then Some (take n (drop (pos f) (content f)), f\<lparr>pos := pos f + n\<rparr>)
      else None)"

subsection \<open>Build configuration and the structures of winnt.h\<close>

text \<open>
  The target architecture is fixed at compile time (\<^verbatim>\<open>_M_X64\<close>, \<^verbatim>\<open>_M_IA64\<close>, otherwise x86).
  It selects the machine constant, the optional-header magic, the layout of
  \<^verbatim>\<open>IMAGE_NT_HEADERS\<close> and the size of \<^verbatim>\<open>IMAGE_THUNK_DATA\<close>. The constants and offsets are
  those of the Windows SDK header winnt.h, which is not part of the repository.
\<close>

datatype arch = M_X64 | M_IA64 | M_I386

fun IMAGE_FILE_MACHINE :: "arch \<Rightarrow> WORD" where
  "IMAGE_FILE_MACHINE M_X64 = 0x8664"
| "IMAGE_FILE_MACHINE M_IA64 = 0x0200"
| "IMAGE_FILE_MACHINE M_I386 = 0x014c"

fun IMAGE_NT_OPTIONAL_HDR_MAGIC :: "arch \<Rightarrow> WORD" where
  "IMAGE_NT_OPTIONAL_HDR_MAGIC M_I386 = 0x10b"
| "IMAGE_NT_OPTIONAL_HDR_MAGIC _ = 0x20b"

fun sizeof_IMAGE_NT_HEADERS :: "arch \<Rightarrow> nat" where
  "sizeof_IMAGE_NT_HEADERS M_I386 = 248"
| "sizeof_IMAGE_NT_HEADERS _ = 264"

text \<open>Offset of \<^verbatim>\<open>OptionalHeader.DataDirectory[IMAGE_DIRECTORY_ENTRY_IMPORT]\<close> in the NT headers.\<close>

fun offsetof_import_directory :: "arch \<Rightarrow> nat" where
  "offsetof_import_directory M_I386 = 128"
| "offsetof_import_directory _ = 144"

fun sizeof_IMAGE_THUNK_DATA :: "arch \<Rightarrow> nat" where
  "sizeof_IMAGE_THUNK_DATA M_I386 = 4"
| "sizeof_IMAGE_THUNK_DATA _ = 8"

definition sizeof_IMAGE_DOS_HEADER :: nat where
  "sizeof_IMAGE_DOS_HEADER = 64"

definition sizeof_IMAGE_SECTION_HEADER :: nat where
  "sizeof_IMAGE_SECTION_HEADER = 40"

definition sizeof_IMAGE_IMPORT_DESCRIPTOR :: nat where
  "sizeof_IMAGE_IMPORT_DESCRIPTOR = 20"

text \<open>The multi-character constants \<^verbatim>\<open>'ZM'\<close> and \<^verbatim>\<open>'EP'\<close>: the bytes "MZ" and "PE\0\0" on disk.\<close>

definition MZ :: WORD where
  "MZ = 0x5A4D"

definition PE :: DWORD where
  "PE = 0x4550"

text \<open>Only the fields the program reads are kept.\<close>

record IMAGE_DOS_HEADER =
  e_magic :: WORD
  e_lfanew :: DWORD

record IMAGE_FILE_HEADER =
  Machine :: WORD
  NumberOfSections :: WORD

record IMAGE_DATA_DIRECTORY =
  dd_VirtualAddress :: DWORD
  dd_Size :: DWORD

record IMAGE_OPTIONAL_HEADER =
  Magic :: WORD
  ImportDirectory :: IMAGE_DATA_DIRECTORY

record IMAGE_NT_HEADERS =
  nt_Signature :: DWORD
  nt_FileHeader :: IMAGE_FILE_HEADER
  nt_OptionalHeader :: IMAGE_OPTIONAL_HEADER

record IMAGE_SECTION_HEADER =
  VirtualSize :: DWORD
  VirtualAddress :: DWORD
  PointerToRawData :: DWORD

record IMAGE_IMPORT_DESCRIPTOR =
  Name :: DWORD
  FirstThunk :: DWORD

definition field :: "nat \<Rightarrow> nat \<Rightarrow> byte list \<Rightarrow> 'a::len word" where
  "field off n bs = le_word (take n (drop off bs))"

definition decode_IMAGE_NT_HEADERS :: "arch \<Rightarrow> byte list \<Rightarrow> IMAGE_NT_HEADERS" where
  "decode_IMAGE_NT_HEADERS a bs =
     \<lparr>nt_Signature = field 0 4 bs,
      nt_FileHeader = \<lparr>Machine = field 4 2 bs, NumberOfSections = field 6 2 bs\<rparr>,
      nt_OptionalHeader =
        \<lparr>Magic = field 24 2 bs,
         ImportDirectory =
           \<lparr>dd_VirtualAddress = field (offsetof_import_directory a) 4 bs,
            dd_Size = field (offsetof_import_directory a + 4) 4 bs\<rparr>\<rparr>\<rparr>"

definition decode_IMAGE_SECTION_HEADER :: "byte list \<Rightarrow> IMAGE_SECTION_HEADER" where
  "decode_IMAGE_SECTION_HEADER bs =
     \<lparr>VirtualSize = field 8 4 bs, VirtualAddress = field 12 4 bs,
      PointerToRawData = field 20 4 bs\<rparr>"

definition decode_IMAGE_IMPORT_DESCRIPTOR :: "byte list \<Rightarrow> IMAGE_IMPORT_DESCRIPTOR" where
  "decode_IMAGE_IMPORT_DESCRIPTOR bs = \<lparr>Name = field 12 4 bs, FirstThunk = field 16 4 bs\<rparr>"

subsection \<open>Output and failures\<close>

text \<open>
  What the program writes to standard output: a diagnostic \<^verbatim>\<open>printf("%s - ...\n", Path)\<close>
  (the path and the text after the dash), the section diagnostic with its index, the
  result line of a file (index, path, size in bytes, number of imports found) and one
  line per matched import.
\<close>

datatype event =
  Diagnostic string string
| CorruptedSection string nat
| ResultLine int string int int
| ImportLine string
| Usage

text \<open>
  A function of the program fails by returning a nonzero code after printing. Indexing a
  \<^verbatim>\<open>std::vector\<close> past its end is undefined behaviour, kept as a failure of its own.
\<close>

datatype failure = Return int "event list" | OutOfRange

section \<open>Address resolver\<close>

text \<open>
  \<^verbatim>\<open>SectionRvaFileOffset\<close> (lines 124-143). The loop index runs over
  \<^verbatim>\<open>FileHeader->NumberOfSections\<close> and reads \<^verbatim>\<open>Sections[i]\<close>; the sums and differences are
  \<^verbatim>\<open>DWORD\<close> arithmetic.
\<close>

fun section_scan :: "nat \<Rightarrow> IMAGE_SECTION_HEADER list \<Rightarrow> DWORD \<Rightarrow> DWORD option" where
  "section_scan 0 Sections Rva = Some 0"
| "section_scan (Suc n) [] Rva = None"
| "section_scan (Suc n) (s # Sections) Rva =
     (if VirtualAddress s \<le> Rva \<and> Rva < VirtualAddress s + VirtualSize s
      then Some ((Rva - VirtualAddress s) + PointerToRawData s)
      else section_scan n Sections Rva)"

definition SectionRvaFileOffset ::
  "IMAGE_FILE_HEADER \<Rightarrow> IMAGE_SECTION_HEADER list \<Rightarrow> DWORD \<Rightarrow> DWORD option" where
  "SectionRvaFileOffset FileHeader Sections Rva =
     section_scan (unat (NumberOfSections FileHeader)) Sections Rva"

text \<open>
  The test of line 136 for one section, on \<^verbatim>\<open>DWORD\<close>s as the program computes it: the sum
  \<^verbatim>\<open>VirtualAddress + VirtualSize\<close> wraps around at \<open>2^32\<close>.
\<close>

definition line_136_test :: "IMAGE_SECTION_HEADER \<Rightarrow> DWORD \<Rightarrow> bool" where
  "line_136_test s Rva \<longleftrightarrow> VirtualAddress s \<le> Rva \<and> Rva < VirtualAddress s + VirtualSize s"

section \<open>Header validator\<close>

text \<open>
  The functions of the program fill output parameters; here each returns them. Every
  output parameter is cleared or overwritten by its function before it is used, and
  \<^verbatim>\<open>main\<close> reads none after a failure, so no value travels from one file to the next
  except the result counter and the output.

  \<^verbatim>\<open>ReadMagicNumber\<close> (lines 8-32): the first two bytes must be "MZ". The rest of the
  header is not read yet; \<^verbatim>\<open>e_lfanew\<close> stands as 0 until \<^verbatim>\<open>ReadNtHeaders\<close> sets it.
\<close>

definition ReadMagicNumber :: "FILE \<Rightarrow> string \<Rightarrow> failure + (IMAGE_DOS_HEADER \<times> FILE)" where
  "ReadMagicNumber f Path =
     (case fread f 2 of
        None \<Rightarrow> Inl (Return 1 [Diagnostic Path ''Too small to read magic number from DOS header''])
      | Some (bs, f1) \<Rightarrow>
          if le_word bs \<noteq> MZ
          then Inl (Return 2 [Diagnostic Path ''Incorrect magic number from DOS header''])
          else Inr (\<lparr>e_magic = le_word bs, e_lfanew = 0\<rparr>, f1))"

text \<open>
  \<^verbatim>\<open>ReadNtHeaders\<close> (lines 34-93): the rest of the DOS header (\<^verbatim>\<open>e_lfanew\<close> is its last
  field, at offset 60 of the header and 58 of the rest), a seek to \<^verbatim>\<open>e_lfanew\<close>, the NT
  headers, then the signature, the machine (return 5 prints nothing) and the
  optional-header magic.
\<close>

definition ReadNtHeaders ::
  "arch \<Rightarrow> FILE \<Rightarrow> string \<Rightarrow> IMAGE_DOS_HEADER \<Rightarrow>
   failure + (IMAGE_DOS_HEADER \<times> IMAGE_NT_HEADERS \<times> FILE)" where
  "ReadNtHeaders a f Path DosHeader =
     (case fread f (sizeof_IMAGE_DOS_HEADER - 2) of
        None \<Rightarrow> Inl (Return 1 [Diagnostic Path ''DOS header incomplete after magic number''])
      | Some (bs, f1) \<Rightarrow>
          (case fseek f1 (field 58 4 bs) of
             None \<Rightarrow> Inl (Return 2 [Diagnostic Path ''NT header not found''])
           | Some f2 \<Rightarrow>
               (case fread f2 (sizeof_IMAGE_NT_HEADERS a) of
                  None \<Rightarrow> Inl (Return 3 [Diagnostic Path ''NT headers incomplete''])
                | Some (hs, f3) \<Rightarrow>
                    if nt_Signature (decode_IMAGE_NT_HEADERS a hs) \<noteq> PE
                    then Inl (Return 4 [Diagnostic Path ''Incorrect NT header signature''])
                    else if Machine (nt_FileHeader (decode_IMAGE_NT_HEADERS a hs))
                            \<noteq> IMAGE_FILE_MACHINE a
                    then Inl (Return 5 [])
                    else if Magic (nt_OptionalHeader (decode_IMAGE_NT_HEADERS a hs))
                            \<noteq> IMAGE_NT_OPTIONAL_HDR_MAGIC a
                    then Inl (Return 6 [Diagnostic Path
                      ''Optional header magic number is inconsistent with NT header architecture, corrupted?''])
                    else Inr (DosHeader\<lparr>e_lfanew := field 58 4 bs\<rparr>,
                              decode_IMAGE_NT_HEADERS a hs, f3))))"

section \<open>Section table reader\<close>

text \<open>
  \<^verbatim>\<open>ReadSections\<close> (lines 95-121): \<^verbatim>\<open>Sections.clear()\<close>, then one \<^verbatim>\<open>push_back\<close> per declared
  section, read from the current position. \<open>i\<close> is the loop index, \<open>k\<close> the number of
  iterations left.
\<close>

fun ReadSections_loop ::
  "FILE \<Rightarrow> string \<Rightarrow> nat \<Rightarrow> nat \<Rightarrow> IMAGE_SECTION_HEADER list \<Rightarrow>
   failure + (IMAGE_SECTION_HEADER list \<times> FILE)" where
  "ReadSections_loop f Path i 0 Sections = Inr (Sections, f)"
| "ReadSections_loop f Path i (Suc k) Sections =
     (case fread f sizeof_IMAGE_SECTION_HEADER of
        None \<Rightarrow> Inl (Return 1 [CorruptedSection Path i])
      | Some (bs, f1) \<Rightarrow>
          ReadSections_loop f1 Path (Suc i) k (Sections @ [decode_IMAGE_SECTION_HEADER bs]))"

definition ReadSections ::
  "FILE \<Rightarrow> string \<Rightarrow> IMAGE_FILE_HEADER \<Rightarrow> failure + (IMAGE_SECTION_HEADER list \<times> FILE)" where
  "ReadSections f Path FileHeader =
     ReadSections_loop f Path 0 (unat (NumberOfSections FileHeader)) []"

section \<open>Import table walker\<close>

text \<open>
  \<^verbatim>\<open>ReadImportDescriptors\<close> (lines 147-266), in the order of the source.

  Line 163: the number of entries, \<^verbatim>\<open>Size / sizeof(IMAGE_IMPORT_DESCRIPTOR) - 1\<close>, stored in
  a \<^verbatim>\<open>DWORD\<close>.
\<close>

definition NumberOfEntries :: "IMAGE_OPTIONAL_HEADER \<Rightarrow> DWORD" where
  "NumberOfEntries OptionalHeader =
     dd_Size (ImportDirectory OptionalHeader) div of_nat sizeof_IMAGE_IMPORT_DESCRIPTOR - 1"

text \<open>Lines 174-185: the first loop reads the descriptors one after the other.\<close>

fun read_descriptors ::
  "FILE \<Rightarrow> string \<Rightarrow> nat \<Rightarrow> IMAGE_IMPORT_DESCRIPTOR list \<Rightarrow>
   failure + (IMAGE_IMPORT_DESCRIPTOR list \<times> FILE)" where
  "read_descriptors f Path 0 ImportDescriptors = Inr (ImportDescriptors, f)"
| "read_descriptors f Path (Suc k) ImportDescriptors =
     (case fread f sizeof_IMAGE_IMPORT_DESCRIPTOR of
        None \<Rightarrow> Inl (Return 2 [Diagnostic Path ''File too small to read import descriptor''])
      | Some (bs, f1) \<Rightarrow>
          read_descriptors f1 Path k (ImportDescriptors @ [decode_IMAGE_IMPORT_DESCRIPTOR bs]))"

text \<open>
  Lines 202-212 and 251-260: \<^verbatim>\<open>char Name[32]\<close> is filled by one \<^verbatim>\<open>fread\<close> of 32 bytes, its
  last byte is set to 0, and the \<^verbatim>\<open>std::string\<close> built from it ends at the first 0.
\<close>

definition NUL :: byte where
  "NUL = CHR 0x00"

definition sizeof_Name :: nat where
  "sizeof_Name = 32"

definition c_str :: "byte list \<Rightarrow> string" where
  "c_str buf = takeWhile (\<lambda>c. c \<noteq> NUL) buf"

definition read_Name :: "FILE \<Rightarrow> (string \<times> FILE) option" where
  "read_Name f =
     (case fread f sizeof_Name of
        None \<Rightarrow> None
      | Some (buf, f1) \<Rightarrow> Some (c_str (buf[sizeof_Name - 1 := NUL]), f1))"

text \<open>
  Lines 219-231: seek to the thunk, read one \<^verbatim>\<open>IMAGE_THUNK_DATA\<close>; the value resolved is
  \<^verbatim>\<open>(DWORD)Thunk.u1.AddressOfData\<close>, its low four bytes.
\<close>

definition read_thunk :: "arch \<Rightarrow> FILE \<Rightarrow> string \<Rightarrow> DWORD \<Rightarrow> failure + (DWORD \<times> FILE)" where
  "read_thunk a f Path ThunkOffset =
     (case fseek f ThunkOffset of
        None \<Rightarrow> Inl (Return 5 [Diagnostic Path ''Import descriptor first thunk not found''])
      | Some f1 \<Rightarrow>
          (case fread f1 (sizeof_IMAGE_THUNK_DATA a) of
             None \<Rightarrow> Inl (Return 6 [Diagnostic Path
               ''File too small to read first thunk from file descriptor''])
           | Some (Thunk, f2) \<Rightarrow> Inr (field 0 4 Thunk, f2)))"

text \<open>Lines 231-244: resolve the thunk's value, seek there, read the two bytes of the hint.\<close>

definition read_hint ::
  "FILE \<Rightarrow> string \<Rightarrow> IMAGE_FILE_HEADER \<Rightarrow> IMAGE_SECTION_HEADER list \<Rightarrow> DWORD \<Rightarrow>
   failure + (WORD \<times> FILE)" where
  "read_hint f Path FileHeader Sections AddressOfData =
     (case SectionRvaFileOffset FileHeader Sections AddressOfData of
        None \<Rightarrow> Inl OutOfRange
      | Some Offset \<Rightarrow>
          (case fseek f Offset of
             None \<Rightarrow> Inl (Return 7 [Diagnostic Path ''Thunk name not found''])
           | Some f1 \<Rightarrow>
               (case fread f1 2 of
                  None \<Rightarrow> Inl (Return 8 [Diagnostic Path
                    ''File too small to read thunk hint from thunk name''])
                | Some (Hint, f2) \<Rightarrow> Inr (le_word Hint, f2))))"

text \<open>
  Lines 217-262: the walk over one thunk array. \<open>names\<close> is \<^verbatim>\<open>ImportThunkNames.back()\<close>.
  The loop has no bound of its own; it ends because every round seeks to a thunk offset
  that grows, and the seek fails once the offset, as a \<^verbatim>\<open>long\<close>, is negative.
\<close>

function walk_thunks ::
  "arch \<Rightarrow> FILE \<Rightarrow> string \<Rightarrow> IMAGE_FILE_HEADER \<Rightarrow> IMAGE_SECTION_HEADER list \<Rightarrow> DWORD \<Rightarrow>
   string list \<Rightarrow> failure + (string list \<times> FILE)" where
  "walk_thunks a f Path FileHeader Sections ThunkOffset names =
     (case read_thunk a f Path ThunkOffset of
        Inl e \<Rightarrow> Inl e
      | Inr (AddressOfData, f2) \<Rightarrow>
          (case read_hint f2 Path FileHeader Sections AddressOfData of
             Inl e \<Rightarrow> Inl e
           | Inr (Hint, f4) \<Rightarrow>
               if Hint = MZ then Inr (names, f4)
               else
                 (case read_Name f4 of
                    None \<Rightarrow> Inl (Return 9 [Diagnostic Path
                      ''File too small to read thunk name from thunk''])
                  | Some (nm, f5) \<Rightarrow>
                      walk_thunks a f5 Path FileHeader Sections
                        (ThunkOffset + of_nat (sizeof_IMAGE_THUNK_DATA a)) (names @ [nm]))))"
  by pat_completeness auto
termination
proof (relation "measure (\<lambda>(a, f, Path, FileHeader, Sections, ThunkOffset, names).
                   2 ^ 32 - unat ThunkOffset)")
  show "wf (measure (\<lambda>(a, f, Path, FileHeader, Sections, ThunkOffset, names).
                       2 ^ 32 - unat (ThunkOffset :: DWORD)))"
    by (rule wf_measure)
next
  fix a :: arch and f :: FILE and Path :: string and FileHeader :: IMAGE_FILE_HEADER
    and Sections :: "IMAGE_SECTION_HEADER list" and ThunkOffset :: DWORD
    and names :: "string list" and x :: "DWORD \<times> FILE" and nm :: string
    and f4 f5 :: FILE and y :: "WORD \<times> FILE" and AddressOfData :: DWORD and Hint :: WORD
    and f2 :: FILE
  assume rd: "read_thunk a f Path ThunkOffset = Inr x"
  have pos: "\<not> sint ThunkOffset < 0"
    using rd by (auto simp: read_thunk_def fseek_def split: if_splits)
  have small: "unat ThunkOffset < 2 ^ 31"
  proof (rule ccontr)
    assume "\<not> unat ThunkOffset < 2 ^ 31"
    then have "(2::nat) ^ 31 \<le> unat ThunkOffset" by (rule leI)
    then have "int (2 ^ 31) \<le> int (unat ThunkOffset)" by (rule iffD2 [OF of_nat_le_iff])
    then have "(2::int) ^ 31 \<le> uint ThunkOffset"
      by (simp only: of_nat_power of_nat_numeral uint_nat)
    then have "signed_take_bit 31 (uint ThunkOffset) \<le> uint ThunkOffset - 2 ^ Suc 31"
      by (rule signed_take_bit_int_less_eq)
    moreover have "sint ThunkOffset = signed_take_bit 31 (uint ThunkOffset)"
      using sint_uint [of ThunkOffset] by simp
    moreover have "uint ThunkOffset < 2 ^ Suc 31" using uint_bounded [of ThunkOffset] by simp
    ultimately have "sint ThunkOffset < 0" by linarith
    with pos show False by simp
  qed
  have sz: "sizeof_IMAGE_THUNK_DATA a = 4 \<or> sizeof_IMAGE_THUNK_DATA a = 8"
    by (cases a) simp_all
  have "unat ThunkOffset + unat (of_nat (sizeof_IMAGE_THUNK_DATA a) :: DWORD) < 2 ^ LENGTH(32)"
    using small sz by auto
  then have "unat (ThunkOffset + of_nat (sizeof_IMAGE_THUNK_DATA a)) =
          unat ThunkOffset + unat (of_nat (sizeof_IMAGE_THUNK_DATA a) :: DWORD)"
    by (rule iffD1 [OF unat_add_lem])
  then have "unat ThunkOffset < unat (ThunkOffset + of_nat (sizeof_IMAGE_THUNK_DATA a))"
    using sz by auto
  moreover have "unat ThunkOffset < 2 ^ 32" using small by simp
  ultimately have "2 ^ 32 - unat (ThunkOffset + of_nat (sizeof_IMAGE_THUNK_DATA a))
      < 2 ^ 32 - unat ThunkOffset"
    by (rule diff_less_mono2)
  then show "((a, f5, Path, FileHeader, Sections,
               ThunkOffset + of_nat (sizeof_IMAGE_THUNK_DATA a), names @ [nm]),
              (a, f, Path, FileHeader, Sections, ThunkOffset, names))
             \<in> measure (\<lambda>(a, f, Path, FileHeader, Sections, ThunkOffset, names).
                   2 ^ 32 - unat ThunkOffset)"
    by (simp only: in_measure prod.case)
qed

declare walk_thunks.simps [simp del]

text \<open>
  Lines 192-263: the second loop, one round per descriptor read by the first loop
  (\<^verbatim>\<open>ImportDescriptors\<close> holds \<^verbatim>\<open>NumberOfEntries\<close> elements when it starts).
\<close>

fun import_loop ::
  "arch \<Rightarrow> FILE \<Rightarrow> string \<Rightarrow> IMAGE_FILE_HEADER \<Rightarrow> IMAGE_SECTION_HEADER list \<Rightarrow>
   IMAGE_IMPORT_DESCRIPTOR list \<Rightarrow> string list \<Rightarrow> string list list \<Rightarrow>
   failure + (string list \<times> string list list \<times> FILE)" where
  "import_loop a f Path FileHeader Sections [] ImportDllNames ImportThunkNames =
     Inr (ImportDllNames, ImportThunkNames, f)"
| "import_loop a f Path FileHeader Sections (d # ds) ImportDllNames ImportThunkNames =
     (case SectionRvaFileOffset FileHeader Sections (Name d) of
        None \<Rightarrow> Inl OutOfRange
      | Some Offset \<Rightarrow>
          (case fseek f Offset of
             None \<Rightarrow> Inl (Return 3 [Diagnostic Path ''Import descriptor name not found''])
           | Some f1 \<Rightarrow>
               (case read_Name f1 of
                  None \<Rightarrow> Inl (Return 4 [Diagnostic Path
                    ''File too small to read import descriptor name''])
                | Some (nm, f2) \<Rightarrow>
                    (case SectionRvaFileOffset FileHeader Sections (FirstThunk d) of
                       None \<Rightarrow> Inl OutOfRange
                     | Some ThunkOffset \<Rightarrow>
                         (case walk_thunks a f2 Path FileHeader Sections ThunkOffset [] of
                            Inl e \<Rightarrow> Inl e
                          | Inr (names, f3) \<Rightarrow>
                              import_loop a f3 Path FileHeader Sections ds
                                (ImportDllNames @ [nm]) (ImportThunkNames @ [names]))))))"

definition ReadImportDescriptors ::
  "arch \<Rightarrow> FILE \<Rightarrow> string \<Rightarrow> IMAGE_FILE_HEADER \<Rightarrow> IMAGE_OPTIONAL_HEADER \<Rightarrow>
   IMAGE_SECTION_HEADER list \<Rightarrow>
   failure + (IMAGE_IMPORT_DESCRIPTOR list \<times> string list \<times> string list list \<times> FILE)" where
  "ReadImportDescriptors a f Path FileHeader OptionalHeader Sections =
     (case SectionRvaFileOffset FileHeader Sections
             (dd_VirtualAddress (ImportDirectory OptionalHeader)) of
        None \<Rightarrow> Inl OutOfRange
      | Some Offset \<Rightarrow>
          (case fseek f Offset of
             None \<Rightarrow> Inl (Return 1 [Diagnostic Path ''Import descriptor not found''])
           | Some f1 \<Rightarrow>
               (case read_descriptors f1 Path (unat (NumberOfEntries OptionalHeader)) [] of
                  Inl e \<Rightarrow> Inl e
                | Inr (ImportDescriptors, f2) \<Rightarrow>
                    (case import_loop a f2 Path FileHeader Sections ImportDescriptors [] [] of
                       Inl e \<Rightarrow> Inl e
                     | Inr (ImportDllNames, ImportThunkNames, f3) \<Rightarrow>
                         Inr (ImportDescriptors, ImportDllNames, ImportThunkNames, f3)))))"

section \<open>Scanner\<close>

text \<open>
  \<^verbatim>\<open>main\<close>, lines 340-360: every extracted name is compared with every requested import
  by \<^verbatim>\<open>std::string::compare\<close>, which is 0 exactly for equal strings. A match adds one to
  \<^verbatim>\<open>importCount\<close> and, when more than one import was requested, one line to \<^verbatim>\<open>oss\<close>.
\<close>

definition match_import :: "int \<Rightarrow> string \<Rightarrow> string \<Rightarrow> event list \<times> int \<Rightarrow> event list \<times> int" where
  "match_import numImports nm imp st =
     (case st of (oss, importCount) \<Rightarrow>
        if nm = imp
        then (if numImports > 1 then oss @ [ImportLine imp] else oss, importCount + 1)
        else (oss, importCount))"

definition match_imports ::
  "string list \<Rightarrow> string list list \<Rightarrow> event list \<times> int" where
  "match_imports ppszImports ImportThunkNames =
     fold (\<lambda>names. fold (\<lambda>nm. fold (match_import (int (length ppszImports)) nm) ppszImports) names)
       ImportThunkNames ([], 0)"

text \<open>
  Lines 365-367: \<^verbatim>\<open>ftell\<close> at the end of the file; the position does not fit a \<^verbatim>\<open>long\<close>
  from 2 GiB on, and \<^verbatim>\<open>ftell\<close> then returns -1.
\<close>

definition SizeInBytes :: "FILE \<Rightarrow> int" where
  "SizeInBytes f = (if length (content f) < 2 ^ 31 then int (length (content f)) else - 1)"

text \<open>
  What the directory iterator yields: the path, its extension, and the bytes of the file,
  or \<open>None\<close> when \<^verbatim>\<open>fopen_s\<close> fails.
\<close>

record dirEntry =
  path :: string
  extension :: string
  bytes :: "byte list option"

text \<open>The variables of \<^verbatim>\<open>main\<close> that live across files: the result counter and the output.\<close>

record main_state =
  numResults :: int
  cout :: "event list"

text \<open>
  Lines 310-336: the four reading steps of one file; each nonzero return closes the file
  and goes on to the next one.
\<close>

definition read_file ::
  "arch \<Rightarrow> FILE \<Rightarrow> string \<Rightarrow> failure + (string list list \<times> FILE)" where
  "read_file a f Path =
     (case ReadMagicNumber f Path of
        Inl e \<Rightarrow> Inl e
      | Inr (DosHeader, f1) \<Rightarrow>
          (case ReadNtHeaders a f1 Path DosHeader of
             Inl e \<Rightarrow> Inl e
           | Inr (DosHeader', NtHeaders, f2) \<Rightarrow>
               (case ReadSections f2 Path (nt_FileHeader NtHeaders) of
                  Inl e \<Rightarrow> Inl e
                | Inr (Sections, f3) \<Rightarrow>
                    (case ReadImportDescriptors a f3 Path (nt_FileHeader NtHeaders)
                            (nt_OptionalHeader NtHeaders) Sections of
                       Inl e \<Rightarrow> Inl e
                     | Inr (ImportDescriptors, ImportDllNames, ImportThunkNames, f4) \<Rightarrow>
                         Inr (ImportThunkNames, f4)))))"

text \<open>Lines 340-372: the matches of one file that was read, and its result when there are any.\<close>

definition report ::
  "string list \<Rightarrow> main_state \<Rightarrow> string \<Rightarrow> FILE \<Rightarrow> string list list \<Rightarrow> main_state" where
  "report ppszImports st Path f ImportThunkNames =
     (case match_imports ppszImports ImportThunkNames of (oss, importCount) \<Rightarrow>
        if importCount \<noteq> 0
        then st\<lparr>numResults := numResults st + 1,
                cout := cout st @ [ResultLine (numResults st) Path (SizeInBytes f) importCount] @ oss\<rparr>
        else st)"

text \<open>
  Lines 299-375: the body of the loop over the directory. \<open>None\<close> stands for undefined
  behaviour (a vector indexed past its end).
\<close>

definition scan_entry ::
  "arch \<Rightarrow> string \<Rightarrow> string list \<Rightarrow> main_state \<Rightarrow> dirEntry \<Rightarrow> main_state option" where
  "scan_entry a pszExtension ppszImports st e =
     (if extension e \<noteq> pszExtension then Some st
      else
        (case bytes e of
           None \<Rightarrow> Some st
         | Some bs \<Rightarrow>
             (case read_file a \<lparr>content = bs, pos = 0\<rparr> (path e) of
                Inl (Return rc printed) \<Rightarrow> Some (st\<lparr>cout := cout st @ printed\<rparr>)
              | Inl OutOfRange \<Rightarrow> None
              | Inr (ImportThunkNames, f) \<Rightarrow>
                  Some (report ppszImports st (path e) f ImportThunkNames))))"

fun scan_directory ::
  "arch \<Rightarrow> string \<Rightarrow> string list \<Rightarrow> main_state \<Rightarrow> dirEntry list \<Rightarrow> main_state option" where
  "scan_directory a pszExtension ppszImports st [] = Some st"
| "scan_directory a pszExtension ppszImports st (e # es) =
     (case scan_entry a pszExtension ppszImports st e of
        None \<Rightarrow> None
      | Some st' \<Rightarrow> scan_directory a pszExtension ppszImports st' es)"

text \<open>
  \<^verbatim>\<open>main\<close> (lines 268-376): with fewer than four arguments the usage text; otherwise the
  scan of the directory \<^verbatim>\<open>argv[1]\<close> (its entries are \<open>dir\<close>) for the extension \<^verbatim>\<open>argv[2]\<close>
  and the imports \<^verbatim>\<open>argv[3..]\<close>.
\<close>

definition main :: "arch \<Rightarrow> string list \<Rightarrow> dirEntry list \<Rightarrow> main_state option" where
  "main a argv dir =
     (if length argv < 4 then Some \<lparr>numResults = 0, cout = [Usage]\<rparr>
      else scan_directory a (argv ! 2) (drop 3 argv) \<lparr>numResults = 0, cout = []\<rparr> dir)"

section \<open>Notions used to state the properties\<close>

text \<open>
  One round of the thunk walk up to its test (lines 219-244): the hint read for the thunk
  stored at \<open>ThunkOffset\<close>, or the failure of that round.
\<close>

definition read_entry ::
  "arch \<Rightarrow> FILE \<Rightarrow> string \<Rightarrow> IMAGE_FILE_HEADER \<Rightarrow> IMAGE_SECTION_HEADER list \<Rightarrow> DWORD \<Rightarrow>
   failure + (WORD \<times> FILE)" where
  "read_entry a f Path FileHeader Sections ThunkOffset =
     (case read_thunk a f Path ThunkOffset of
        Inl e \<Rightarrow> Inl e
      | Inr (AddressOfData, f2) \<Rightarrow> read_hint f2 Path FileHeader Sections AddressOfData)"

text \<open>The value of \<^verbatim>\<open>ThunkOffset\<close> after \<open>i\<close> rounds (line 261), a \<^verbatim>\<open>DWORD\<close>.\<close>

definition thunk_offset :: "arch \<Rightarrow> DWORD \<Rightarrow> nat \<Rightarrow> DWORD" where
  "thunk_offset a ThunkOffset i = ThunkOffset + of_nat i * of_nat (sizeof_IMAGE_THUNK_DATA a)"

text \<open>
  What one round of the walk observes for the thunk stored at \<open>ThunkOffset\<close>: the hint it
  reads (when the reads of lines 219-244 succeed), and the name it appends (when the hint
  is not "MZ" and the read of lines 251-257 succeeds).
\<close>

definition hint_at ::
  "arch \<Rightarrow> FILE \<Rightarrow> string \<Rightarrow> IMAGE_FILE_HEADER \<Rightarrow> IMAGE_SECTION_HEADER list \<Rightarrow> DWORD \<Rightarrow>
   WORD option" where
  "hint_at a f Path FileHeader Sections ThunkOffset =
     (case read_entry a f Path FileHeader Sections ThunkOffset of
        Inl e \<Rightarrow> None
      | Inr (Hint, f4) \<Rightarrow> Some Hint)"

definition entry_name ::
  "arch \<Rightarrow> FILE \<Rightarrow> string \<Rightarrow> IMAGE_FILE_HEADER \<Rightarrow> IMAGE_SECTION_HEADER list \<Rightarrow> DWORD \<Rightarrow>
   string option" where
  "entry_name a f Path FileHeader Sections ThunkOffset =
     (case read_entry a f Path FileHeader Sections ThunkOffset of
        Inl e \<Rightarrow> None
      | Inr (Hint, f4) \<Rightarrow>
          if Hint = MZ then None
          else (case read_Name f4 of None \<Rightarrow> None | Some (nm, f5) \<Rightarrow> Some nm))"

text \<open>
  The matches of a file as the specification words them: every extracted name, in the
  order in which the names were read, paired with every requested import equal to it,
  duplicates included.
\<close>

definition spec_matched_names :: "string list \<Rightarrow> string list list \<Rightarrow> string list" where
  "spec_matched_names ppszImports ImportThunkNames =
     concat (map (\<lambda>nm. filter (\<lambda>imp. nm = imp) ppszImports) (concat ImportThunkNames))"

text \<open>A line of output that is a diagnostic about the file \<open>Path\<close>.\<close>

fun is_diagnostic :: "string \<Rightarrow> event \<Rightarrow> bool" where
  "is_diagnostic Path (Diagnostic p msg) = (p = Path)"
| "is_diagnostic Path (CorruptedSection p i) = (p = Path)"
| "is_diagnostic Path ev = False"

text \<open>
  The range of a section as the specification words it: the half-open interval
  \<open>[VirtualAddress, VirtualAddress + VirtualSize)\<close> of the numbers.
\<close>

definition address_in_range :: "IMAGE_SECTION_HEADER \<Rightarrow> DWORD \<Rightarrow> bool" where
  "address_in_range s Rva \<longleftrightarrow>
     unat (VirtualAddress s) \<le> unat Rva \<and>
     unat Rva < unat (VirtualAddress s) + unat (VirtualSize s)"

text \<open>
  The outcome "unsupported architecture" as the specification words it (steps 1 to 5 of
  its header validation pass the file on to the test of the machine type), on the bytes of
  the file: the file holds a complete DOS header that starts with the magic number, the
  format header lies in the file at the offset the DOS header gives (its last field, at
  offset 60) and starts with the signature, and the machine type, the two bytes after
  the signature, is not the architecture of the build.
\<close>

definition UnsupportedArchitecture :: "arch \<Rightarrow> byte list \<Rightarrow> bool" where
  "UnsupportedArchitecture a bs \<longleftrightarrow>
     sizeof_IMAGE_DOS_HEADER \<le> length bs \<and>
     (field 0 2 bs :: WORD) = MZ \<and>
     0 \<le> sint (field 60 4 bs :: DWORD) \<and>
     unat (field 60 4 bs :: DWORD) + sizeof_IMAGE_NT_HEADERS a \<le> length bs \<and>
     (field (unat (field 60 4 bs :: DWORD)) 4 bs :: DWORD) = PE \<and>
     (field (unat (field 60 4 bs :: DWORD) + 4) 2 bs :: WORD) \<noteq> IMAGE_FILE_MACHINE a"

text \<open>
  The silent return of the program, to be compared with the outcome above: the magic
  number is accepted and \<^verbatim>\<open>ReadNtHeaders\<close> returns 5 without printing (lines 74-84).
\<close>

definition ReadNtHeaders_returns_5 :: "arch \<Rightarrow> FILE \<Rightarrow> string \<Rightarrow> bool" where
  "ReadNtHeaders_returns_5 a f Path =
     (case ReadMagicNumber f Path of
        Inl e \<Rightarrow> False
      | Inr (DosHeader, f1) \<Rightarrow> ReadNtHeaders a f1 Path DosHeader = Inl (Return 5 []))"

text \<open>A line of output without the running number of the result.\<close>

fun without_index :: "event \<Rightarrow> event" where
  "without_index (ResultLine n p size_in_bytes importCount) = ResultLine 0 p size_in_bytes importCount"
| "without_index ev = ev"

section \<open>Images for the examples\<close>

text \<open>
  An x86 image of 74 bytes with one section that maps the addresses from \<open>0x1000\<close> on to
  the start of the file: "MZ", one import descriptor at offset 4 (name at \<open>0x1020\<close>, first
  thunk at \<open>0x1018\<close>), the thunk array at offset 24 (one entry, \<open>0x1028\<close>, then a zero
  entry), the DLL name "k.sys" at offset 32, and at offset 40 the hint 1 followed by the
  name "IoCreateDevice".
\<close>

definition tiny_sys :: "byte list" where
  "tiny_sys =
     ''MZ'' @ [NUL, NUL]
     @ [NUL, NUL, NUL, NUL, NUL, NUL, NUL, NUL, NUL, NUL, NUL, NUL,
        CHR 0x20, CHR 0x10, NUL, NUL, CHR 0x18, CHR 0x10, NUL, NUL]
     @ [CHR 0x28, CHR 0x10, NUL, NUL, NUL, NUL, NUL, NUL]
     @ ''k.sys'' @ [NUL, NUL, NUL]
     @ [CHR 0x01, NUL] @ ''IoCreateDevice''
     @ [NUL, NUL, NUL, NUL, NUL, NUL, NUL, NUL, NUL, NUL, NUL, NUL, NUL, NUL, NUL, NUL, NUL, NUL]"

definition tiny_FileHeader :: IMAGE_FILE_HEADER where
  "tiny_FileHeader = \<lparr>Machine = 0x14c, NumberOfSections = 1\<rparr>"

definition tiny_OptionalHeader :: IMAGE_OPTIONAL_HEADER where
  "tiny_OptionalHeader =
     \<lparr>Magic = 0x10b, ImportDirectory = \<lparr>dd_VirtualAddress = 0x1004, dd_Size = 40\<rparr>\<rparr>"

definition tiny_Sections :: "IMAGE_SECTION_HEADER list" where
  "tiny_Sections = [\<lparr>VirtualSize = 0x100, VirtualAddress = 0x1000, PointerToRawData = 0\<rparr>]"

text \<open>
  A second small image, of 50 bytes, whose only section maps the addresses 0 to 15 to the
  file offsets 16 to 31: "MZ", at offset 4 a thunk array with a zero entry followed by the
  entry \<open>0x1000\<close> (an address in no section), and at offset 16 the hint 0 followed by the
  name "A".
\<close>

definition zero_sys :: "byte list" where
  "zero_sys =
     ''MZ'' @ [NUL, NUL]
     @ [NUL, NUL, NUL, NUL, NUL, CHR 0x10, NUL, NUL]
     @ [NUL, NUL, NUL, NUL]
     @ [NUL, NUL] @ ''A''
     @ [NUL, NUL, NUL, NUL, NUL, NUL, NUL, NUL, NUL, NUL, NUL, NUL, NUL, NUL, NUL, NUL,
        NUL, NUL, NUL, NUL, NUL, NUL, NUL, NUL, NUL, NUL, NUL, NUL, NUL, NUL, NUL]"

definition zero_FileHeader :: IMAGE_FILE_HEADER where
  "zero_FileHeader = \<lparr>Machine = 0x14c, NumberOfSections = 1\<rparr>"

definition zero_Sections :: "IMAGE_SECTION_HEADER list" where
  "zero_Sections = [\<lparr>VirtualSize = 0x10, VirtualAddress = 0, PointerToRawData = 0x10\<rparr>]"

text \<open>
  A complete x86 image of 362 bytes. The DOS header gives \<^verbatim>\<open>e_lfanew\<close> = 4, so the NT headers
  are the bytes 4 to 251 (signature "PE", machine \<open>0x14c\<close>, one section, optional-header
  magic \<open>0x10b\<close>, import directory at \<open>0x1124\<close> of size 40); the section header at offset 252
  maps the addresses from \<open>0x1000\<close> to \<open>0x11ff\<close> to the start of the file; the import
  descriptor is at offset 292 (name at \<open>0x1140\<close>, first thunk at \<open>0x1138\<close>), the thunk
  array at 312 (\<open>0x1148\<close>, then zero), the DLL name "k.sys" at 320, and at 328 the hint 1
  followed by "IoCreateDevice".
\<close>

definition mini_pe :: "byte list" where
  "mini_pe =
     ''MZ'' @ [NUL, NUL]
     @ ''PE'' @ [NUL, NUL, CHR 0x4C, CHR 0x01, CHR 0x01, NUL] @ replicate 16 NUL
     @ [CHR 0x0B, CHR 0x01] @ replicate 30 NUL
     @ [CHR 0x04, NUL, NUL, NUL] @ replicate 68 NUL
     @ [CHR 0x24, CHR 0x11, NUL, NUL, CHR 0x28, NUL, NUL, NUL] @ replicate 112 NUL
     @ replicate 8 NUL @ [NUL, CHR 0x02, NUL, NUL, NUL, CHR 0x10, NUL, NUL] @ replicate 24 NUL
     @ replicate 12 NUL @ [CHR 0x40, CHR 0x11, NUL, NUL, CHR 0x38, CHR 0x11, NUL, NUL]
     @ [CHR 0x48, CHR 0x11, NUL, NUL, NUL, NUL, NUL, NUL]
     @ ''k.sys'' @ [NUL, NUL, NUL]
     @ [CHR 0x01, NUL] @ ''IoCreateDevice'' @ replicate 18 NUL"

text \<open>The same image with the machine type of x64 (\<open>0x8664\<close>) in its file header.\<close>

definition mini_pe_amd64 :: "byte list" where
  "mini_pe_amd64 = take 8 mini_pe @ [CHR 0x64, CHR 0x86] @ drop 10 mini_pe"

section \<open>Properties of the address resolver\<close>

lemma section_scan_skip:
  "\<not> line_136_test s Rva \<Longrightarrow>
   section_scan (Suc n) (s # Sections) Rva = section_scan n Sections Rva"
  by (auto simp: line_136_test_def)

lemma section_scan_hit:
  "line_136_test s Rva \<Longrightarrow>
   section_scan (Suc n) (s # Sections) Rva =
     Some ((Rva - VirtualAddress s) + PointerToRawData s)"
  by (auto simp: line_136_test_def)

lemma section_scan_first:
  "i < length Sections \<Longrightarrow> length Sections \<le> n \<Longrightarrow> line_136_test (Sections ! i) Rva \<Longrightarrow>
   \<forall>j<i. \<not> line_136_test (Sections ! j) Rva \<Longrightarrow>
   section_scan n Sections Rva =
     Some ((Rva - VirtualAddress (Sections ! i)) + PointerToRawData (Sections ! i))"
proof (induction n Sections Rva arbitrary: i rule: section_scan.induct)
  case (3 n s Sections Rva)
  show ?case
  proof (cases i)
    case 0
    with "3.prems" show ?thesis by (simp add: section_scan_hit del: section_scan.simps)
  next
    case (Suc k)
    from "3.prems"(4) have miss: "\<not> line_136_test s Rva" using Suc by auto
    from "3.prems"(4) have "\<forall>j<k. \<not> line_136_test (Sections ! j) Rva"
      using Suc by auto
    moreover from miss
    have "\<not> (VirtualAddress s \<le> Rva \<and> Rva < VirtualAddress s + VirtualSize s)"
      by (simp add: line_136_test_def)
    ultimately have "section_scan n Sections Rva =
        Some ((Rva - VirtualAddress (Sections ! k)) + PointerToRawData (Sections ! k))"
      using "3.prems" Suc by (intro "3.IH") auto
    then show ?thesis using miss Suc by (simp add: section_scan_skip del: section_scan.simps)
  qed
qed simp_all

lemma section_scan_none:
  "length Sections = n \<Longrightarrow> \<forall>j<length Sections. \<not> line_136_test (Sections ! j) Rva \<Longrightarrow>
   section_scan n Sections Rva = Some 0"
proof (induction n Sections Rva rule: section_scan.induct)
  case (3 n s Sections Rva)
  from "3.prems"(2) have miss: "\<not> line_136_test s Rva" by auto
  from "3.prems"(2) have "\<forall>j<length Sections. \<not> line_136_test (Sections ! j) Rva"
    by auto
  moreover from miss
  have "\<not> (VirtualAddress s \<le> Rva \<and> Rva < VirtualAddress s + VirtualSize s)"
    by (simp add: line_136_test_def)
  ultimately have "section_scan n Sections Rva = Some 0"
    using "3.prems"(1) by (intro "3.IH") auto
  then show ?case using miss by (simp add: section_scan_skip del: section_scan.simps)
qed simp_all

lemma section_scan_defined:
  "n \<le> length Sections \<Longrightarrow> \<exists>Offset. section_scan n Sections Rva = Some Offset"
  by (induction n Sections Rva rule: section_scan.induct) simp_all

text \<open>
  When the virtual range of a section does not pass \<open>2^32\<close>, the test of the program on
  \<^verbatim>\<open>DWORD\<close>s is the range of the specification.
\<close>

lemma line_136_test_no_wrap:
  assumes "unat (VirtualAddress s) + unat (VirtualSize s) < 2 ^ 32"
  shows "line_136_test s Rva \<longleftrightarrow> address_in_range s Rva"
proof -
  from assms have "unat (VirtualAddress s) + unat (VirtualSize s) < 2 ^ LENGTH(32)"
    by simp
  then have "unat (VirtualAddress s + VirtualSize s) =
      unat (VirtualAddress s) + unat (VirtualSize s)"
    by (rule iffD1 [OF unat_add_lem])
  then show ?thesis
    by (simp add: line_136_test_def address_in_range_def word_le_nat_alt word_less_nat_alt)
qed

lemma address_in_range_0:
  "address_in_range s 0 \<longleftrightarrow> line_136_test s 0"
  by (auto simp: address_in_range_def line_136_test_def word_less_nat_alt unat_eq_0)

lemma offset_in_section_unat:
  fixes Rva VA raw :: DWORD
  assumes "unat VA \<le> unat Rva"
  shows "unat ((Rva - VA) + raw) = (unat Rva - unat VA + unat raw) mod 2 ^ 32"
proof -
  from assms have "VA \<le> Rva" by (simp add: word_le_nat_alt)
  then have "unat (Rva - VA) = unat Rva - unat VA" by (rule unat_sub)
  then show ?thesis by (simp add: unat_word_ariths)
qed

text \<open>
  Claim C3, as amended. With one section header per declared section (what
  \<^verbatim>\<open>ReadSections\<close> leaves) and no section whose range passes \<open>2^32\<close>
  (\<open>VirtualAddress + VirtualSize < 2^32\<close> for every section), the resolver returns, for
  the first section in declaration order whose range
  \<open>[VirtualAddress, VirtualAddress + VirtualSize)\<close> holds the address, the address minus
  the section's virtual address plus its raw-data offset, as a 32-bit value (the number
  modulo \<open>2^32\<close>), and 0 for an address that no section holds. The resolver is a function
  of its arguments, so equal inputs give equal results.
\<close>

theorem SectionRvaFileOffset_first_match_no_wrap:
  assumes "unat (NumberOfSections FileHeader) = length Sections"
    and "\<forall>j<length Sections.
           unat (VirtualAddress (Sections ! j)) + unat (VirtualSize (Sections ! j)) < 2 ^ 32"
  shows "(\<forall>i<length Sections.
            address_in_range (Sections ! i) Rva \<and>
            (\<forall>j<i. \<not> address_in_range (Sections ! j) Rva) \<longrightarrow>
            SectionRvaFileOffset FileHeader Sections Rva =
              Some ((Rva - VirtualAddress (Sections ! i)) + PointerToRawData (Sections ! i)) \<and>
            unat ((Rva - VirtualAddress (Sections ! i)) + PointerToRawData (Sections ! i)) =
              (unat Rva - unat (VirtualAddress (Sections ! i)) +
               unat (PointerToRawData (Sections ! i))) mod 2 ^ 32)
       \<and> ((\<forall>j<length Sections. \<not> address_in_range (Sections ! j) Rva) \<longrightarrow>
            SectionRvaFileOffset FileHeader Sections Rva = Some 0)"
proof -
  from assms(2) have same: "line_136_test (Sections ! j) Rva \<longleftrightarrow>
      address_in_range (Sections ! j) Rva" if "j < length Sections" for j
    using that by (simp add: line_136_test_no_wrap)
  have first: "SectionRvaFileOffset FileHeader Sections Rva =
        Some ((Rva - VirtualAddress (Sections ! i)) + PointerToRawData (Sections ! i)) \<and>
      unat ((Rva - VirtualAddress (Sections ! i)) + PointerToRawData (Sections ! i)) =
        (unat Rva - unat (VirtualAddress (Sections ! i)) +
         unat (PointerToRawData (Sections ! i))) mod 2 ^ 32"
    if i: "i < length Sections" and hit: "address_in_range (Sections ! i) Rva"
      and miss: "\<forall>j<i. \<not> address_in_range (Sections ! j) Rva" for i
  proof
    from hit i have "line_136_test (Sections ! i) Rva" by (simp add: same)
    moreover from miss i have "\<forall>j<i. \<not> line_136_test (Sections ! j) Rva"
      by (simp add: same)
    ultimately show "SectionRvaFileOffset FileHeader Sections Rva =
        Some ((Rva - VirtualAddress (Sections ! i)) + PointerToRawData (Sections ! i))"
      using i assms(1) by (simp add: SectionRvaFileOffset_def section_scan_first)
    from hit have "unat (VirtualAddress (Sections ! i)) \<le> unat Rva"
      by (simp add: address_in_range_def)
    then show "unat ((Rva - VirtualAddress (Sections ! i)) + PointerToRawData (Sections ! i)) =
        (unat Rva - unat (VirtualAddress (Sections ! i)) +
         unat (PointerToRawData (Sections ! i))) mod 2 ^ 32"
      by (rule offset_in_section_unat)
  qed
  have none: "SectionRvaFileOffset FileHeader Sections Rva = Some 0"
    if "\<forall>j<length Sections. \<not> address_in_range (Sections ! j) Rva"
  proof -
    from that have "\<forall>j<length Sections. \<not> line_136_test (Sections ! j) Rva"
      by (simp add: same)
    with assms(1) show ?thesis by (simp add: SectionRvaFileOffset_def section_scan_none)
  qed
  from first none show ?thesis by blast
qed

theorem SectionRvaFileOffset_first_match_no_wrap_witness:
  "unat (NumberOfSections \<lparr>Machine = 0x14c, NumberOfSections = 2\<rparr>) =
     length [\<lparr>VirtualSize = 0x1000, VirtualAddress = 0x1000, PointerToRawData = 0x400\<rparr>,
             \<lparr>VirtualSize = 0x200, VirtualAddress = 0x2000, PointerToRawData = 0x600\<rparr>]
   \<and> unat (0x1000 :: DWORD) + unat (0x1000 :: DWORD) < 2 ^ 32
   \<and> unat (0x2000 :: DWORD) + unat (0x200 :: DWORD) < 2 ^ 32
   \<and> SectionRvaFileOffset \<lparr>Machine = 0x14c, NumberOfSections = 2\<rparr>
        [\<lparr>VirtualSize = 0x1000, VirtualAddress = 0x1000, PointerToRawData = 0x400\<rparr>,
         \<lparr>VirtualSize = 0x200, VirtualAddress = 0x2000, PointerToRawData = 0x600\<rparr>] 0x2010
       = Some 0x610
   \<and> SectionRvaFileOffset \<lparr>Machine = 0x14c, NumberOfSections = 2\<rparr>
        [\<lparr>VirtualSize = 0x1000, VirtualAddress = 0x1000, PointerToRawData = 0x400\<rparr>,
         \<lparr>VirtualSize = 0x200, VirtualAddress = 0x2000, PointerToRawData = 0x600\<rparr>] 0x2200
       = Some 0"
proof -
  let ?fh = "\<lparr>Machine = 0x14c, NumberOfSections = 2\<rparr> :: IMAGE_FILE_HEADER"
  let ?S = "[\<lparr>VirtualSize = 0x1000, VirtualAddress = 0x1000, PointerToRawData = 0x400\<rparr>,
             \<lparr>VirtualSize = 0x200, VirtualAddress = 0x2000, PointerToRawData = 0x600\<rparr>]
            :: IMAGE_SECTION_HEADER list"
  have h: "unat (NumberOfSections ?fh) = length ?S" by simp
  have w1: "unat (0x1000 :: DWORD) + unat (0x1000 :: DWORD) < 2 ^ 32" by simp
  have w2: "unat (0x2000 :: DWORD) + unat (0x200 :: DWORD) < 2 ^ 32" by simp
  from w1 w2 have no_wrap: "\<forall>j<length ?S.
      unat (VirtualAddress (?S ! j)) + unat (VirtualSize (?S ! j)) < 2 ^ 32"
    by (simp add: All_less_Suc)
  have hit: "address_in_range (?S ! 1) 0x2010 \<and> (\<forall>j<1. \<not> address_in_range (?S ! j) 0x2010)"
    by (simp add: address_in_range_def)
  have miss: "\<forall>j<length ?S. \<not> address_in_range (?S ! j) 0x2200"
    by (simp add: address_in_range_def All_less_Suc)
  have one: "(1::nat) < length ?S" by simp
  have "SectionRvaFileOffset ?fh ?S 0x2010 =
      Some ((0x2010 - VirtualAddress (?S ! 1)) + PointerToRawData (?S ! 1))"
    by (rule SectionRvaFileOffset_first_match_no_wrap [OF h no_wrap, THEN conjunct1,
          rule_format, OF one hit, THEN conjunct1])
  then have "SectionRvaFileOffset ?fh ?S 0x2010 = Some 0x610" by simp
  moreover have "SectionRvaFileOffset ?fh ?S 0x2200 = Some 0"
    by (rule SectionRvaFileOffset_first_match_no_wrap [OF h no_wrap, THEN conjunct2,
          THEN mp, OF miss])
  ultimately show ?thesis using h w1 w2 by blast
qed

text \<open>
  The claim as stated fails for a section whose range passes \<open>2^32\<close>: the program
  compares with the sum \<^verbatim>\<open>VirtualAddress + VirtualSize\<close> wrapped to 32 bits. The address
  \<open>0xFFFFF800\<close> lies in the range of the section at \<open>0xFFFFF000\<close> of size \<open>0x2000\<close>, and
  the resolver returns 0 where the claim gives \<open>0xC00\<close>.
\<close>

theorem SectionRvaFileOffset_wrapping_range_counterexample:
  "address_in_range
     \<lparr>VirtualSize = 0x2000, VirtualAddress = 0xFFFFF000, PointerToRawData = 0x400\<rparr> 0xFFFFF800
   \<and> SectionRvaFileOffset \<lparr>Machine = 0x14c, NumberOfSections = 1\<rparr>
        [\<lparr>VirtualSize = 0x2000, VirtualAddress = 0xFFFFF000, PointerToRawData = 0x400\<rparr>]
        0xFFFFF800 = Some 0
   \<and> (0xFFFFF800 - VirtualAddress
          \<lparr>VirtualSize = 0x2000, VirtualAddress = 0xFFFFF000, PointerToRawData = 0x400\<rparr>)
       + PointerToRawData
          \<lparr>VirtualSize = 0x2000, VirtualAddress = 0xFFFFF000, PointerToRawData = 0x400\<rparr>
       = (0xC00 :: DWORD)"
  by (simp add: address_in_range_def SectionRvaFileOffset_def)
section \<open>Streams\<close>

lemma fread_SomeD:
  "fread f n = Some (bs, f') \<Longrightarrow>
   pos f + n \<le> length (content f) \<and> bs = take n (drop (pos f) (content f)) \<and>
   f' = f\<lparr>pos := pos f + n\<rparr>"
  by (auto simp: fread_def split: if_splits)

lemma fread_None_iff: "fread f n = None \<longleftrightarrow> length (content f) < pos f + n"
  by (auto simp: fread_def)

lemma read_descriptors_short:
  "0 < k \<Longrightarrow> length (content f) < pos f + sizeof_IMAGE_IMPORT_DESCRIPTOR * k \<Longrightarrow>
   read_descriptors f Path k ds =
     Inl (Return 2 [Diagnostic Path ''File too small to read import descriptor''])"
proof (induction k arbitrary: f ds)
  case 0
  then show ?case by simp
next
  case (Suc k)
  show ?case
  proof (cases "fread f sizeof_IMAGE_IMPORT_DESCRIPTOR")
    case None
    then show ?thesis by simp
  next
    case (Some r)
    obtain bs f1 where r: "r = (bs, f1)" by (cases r)
    from Some r have f1: "f1 = f\<lparr>pos := pos f + sizeof_IMAGE_IMPORT_DESCRIPTOR\<rparr>"
      and fits: "pos f + sizeof_IMAGE_IMPORT_DESCRIPTOR \<le> length (content f)"
      by (auto dest: fread_SomeD)
    from fits Suc.prems(2) have "0 < k" by (cases k) auto
    moreover from f1 Suc.prems(2)
    have "length (content f1) < pos f1 + sizeof_IMAGE_IMPORT_DESCRIPTOR * k" by simp
    ultimately have "read_descriptors f1 Path k (ds @ [decode_IMAGE_IMPORT_DESCRIPTOR bs]) =
        Inl (Return 2 [Diagnostic Path ''File too small to read import descriptor''])"
      by (rule Suc.IH)
    then show ?thesis using Some r by simp
  qed
qed

lemma read_descriptors_length:
  "read_descriptors f Path k ds = Inr (ds', f') \<Longrightarrow> length ds' = length ds + k"
proof (induction k arbitrary: f ds)
  case 0
  then show ?case by simp
next
  case (Suc k)
  then show ?case by (auto split: option.splits)
qed

lemma NumberOfEntries_underflow:
  assumes "dd_Size (ImportDirectory OptionalHeader) < 20"
  shows "NumberOfEntries OptionalHeader = - 1"
proof -
  from assms have "unat (dd_Size (ImportDirectory OptionalHeader)) < 20"
    by (simp add: word_less_nat_alt)
  then have "unat (dd_Size (ImportDirectory OptionalHeader) div 20) = 0"
    by (simp add: unat_div)
  then have "dd_Size (ImportDirectory OptionalHeader) div 20 = 0"
    by (simp only: unat_0_iff)
  then show ?thesis by (simp add: NumberOfEntries_def sizeof_IMAGE_IMPORT_DESCRIPTOR_def)
qed

lemma ReadImportDescriptors_small_Size:
  assumes size: "dd_Size (ImportDirectory OptionalHeader) < 20"
    and off: "SectionRvaFileOffset FileHeader Sections
                (dd_VirtualAddress (ImportDirectory OptionalHeader)) = Some Offset"
    and seek: "\<not> sint Offset < 0"
    and len: "length (content f) < unat Offset + 20 * 4294967295"
  shows "ReadImportDescriptors a f Path FileHeader OptionalHeader Sections =
     Inl (Return 2 [Diagnostic Path ''File too small to read import descriptor''])"
proof -
  have n: "unat (NumberOfEntries OptionalHeader) = 4294967295"
    using NumberOfEntries_underflow [OF size]
    by (simp add: unsigned_minus_1_eq_mask mask_eq_exp_minus_1)
  have sk: "fseek f Offset = Some (f\<lparr>pos := unat Offset\<rparr>)"
    using seek by (simp add: fseek_def)
  have "read_descriptors (f\<lparr>pos := unat Offset\<rparr>) Path 4294967295 [] =
      Inl (Return 2 [Diagnostic Path ''File too small to read import descriptor''])"
    using len by (intro read_descriptors_short) (simp_all add: sizeof_IMAGE_IMPORT_DESCRIPTOR_def)
  then show ?thesis by (simp add: ReadImportDescriptors_def off sk n)
qed

text \<open>From one descriptor's worth of bytes on, the count is the number of
  descriptors less one, with no wrap-around.\<close>

lemma NumberOfEntries_unat:
  assumes "20 \<le> dd_Size (ImportDirectory OptionalHeader)"
  shows "unat (NumberOfEntries OptionalHeader) =
    unat (dd_Size (ImportDirectory OptionalHeader)) div 20 - 1"
proof -
  let ?q = "dd_Size (ImportDirectory OptionalHeader) div 20"
  have q: "unat ?q = unat (dd_Size (ImportDirectory OptionalHeader)) div 20"
    by (simp add: unat_div)
  from assms have "20 \<le> unat (dd_Size (ImportDirectory OptionalHeader))"
    by (simp add: word_le_nat_alt)
  with q have "1 \<le> unat ?q" by simp
  then have "1 \<le> ?q" by (simp add: word_le_nat_alt)
  then have "unat (?q - 1) = unat ?q - unat (1 :: DWORD)" by (rule unat_sub)
  with q show ?thesis by (simp add: NumberOfEntries_def sizeof_IMAGE_IMPORT_DESCRIPTOR_def)
qed

text \<open>
  Claim C1. The number of entries is the directory size divided by the descriptor size,
  minus one, in 32-bit arithmetic. For a directory of size 0 the subtraction wraps to
  \<open>0xFFFFFFFF\<close>: the first loop then asks for that many descriptors and the file is
  rejected as too small, where the claim asks for no iteration. Evaluated here on an
  executable of 512 bytes with one section and an empty import directory.
\<close>

theorem ReadImportDescriptors_empty_directory_underflows:
  "NumberOfEntries \<lparr>Magic = 0x10b, ImportDirectory = \<lparr>dd_VirtualAddress = 0, dd_Size = 0\<rparr>\<rparr>
     = 0xFFFFFFFF
   \<and> ReadImportDescriptors M_I386 \<lparr>content = ''MZ'' @ replicate 510 NUL, pos = 0\<rparr> ''a.sys''
       \<lparr>Machine = 0x14c, NumberOfSections = 1\<rparr>
       \<lparr>Magic = 0x10b, ImportDirectory = \<lparr>dd_VirtualAddress = 0, dd_Size = 0\<rparr>\<rparr>
       [\<lparr>VirtualSize = 0x100, VirtualAddress = 0x1000, PointerToRawData = 0x100\<rparr>]
     = Inl (Return 2 [Diagnostic ''a.sys'' ''File too small to read import descriptor''])"
proof -
  let ?oh = "\<lparr>Magic = 0x10b, ImportDirectory = \<lparr>dd_VirtualAddress = 0, dd_Size = 0\<rparr>\<rparr>"
  have "dd_Size (ImportDirectory ?oh) < 20" by simp
  then have "NumberOfEntries ?oh = - 1" by (rule NumberOfEntries_underflow)
  then have entries: "NumberOfEntries ?oh = 0xFFFFFFFF" by simp
  have "ReadImportDescriptors M_I386 \<lparr>content = ''MZ'' @ replicate 510 NUL, pos = 0\<rparr> ''a.sys''
       \<lparr>Machine = 0x14c, NumberOfSections = 1\<rparr> ?oh
       [\<lparr>VirtualSize = 0x100, VirtualAddress = 0x1000, PointerToRawData = 0x100\<rparr>]
     = Inl (Return 2 [Diagnostic ''a.sys'' ''File too small to read import descriptor''])"
    by (rule ReadImportDescriptors_small_Size [where Offset = 0])
       (simp_all add: SectionRvaFileOffset_def)
  with entries show ?thesis by (rule conjI)
qed

section \<open>The thunk walk\<close>

lemma FILE_content_eq: "content f = content g \<Longrightarrow> f\<lparr>pos := p\<rparr> = (g :: FILE)\<lparr>pos := p\<rparr>"
  by (cases f; cases g) simp

lemma read_thunk_content:
  "content f = content g \<Longrightarrow> read_thunk a f Path off = read_thunk a g Path off"
  by (simp add: read_thunk_def fseek_def fread_def FILE_content_eq [of f g])

lemma read_entry_content:
  "content f = content g \<Longrightarrow>
   read_entry a f Path FileHeader Sections off = read_entry a g Path FileHeader Sections off"
  by (simp add: read_entry_def read_thunk_content [of f g])

lemma read_thunk_InrD:
  "read_thunk a f Path off = Inr (AddressOfData, f2) \<Longrightarrow>
   \<not> sint off < 0 \<and> unat off + sizeof_IMAGE_THUNK_DATA a \<le> length (content f) \<and>
   AddressOfData = field 0 4 (take (sizeof_IMAGE_THUNK_DATA a) (drop (unat off) (content f))) \<and>
   f2 = f\<lparr>pos := unat off + sizeof_IMAGE_THUNK_DATA a\<rparr>"
  by (auto simp: read_thunk_def fseek_def fread_def split: if_splits)

lemma read_hint_InrD:
  "read_hint f Path FileHeader Sections AddressOfData = Inr (Hint, f4) \<Longrightarrow>
   \<exists>Offset. SectionRvaFileOffset FileHeader Sections AddressOfData = Some Offset \<and>
     \<not> sint Offset < 0 \<and> unat Offset + 2 \<le> length (content f) \<and>
     Hint = le_word (take 2 (drop (unat Offset) (content f))) \<and>
     f4 = f\<lparr>pos := unat Offset + 2\<rparr>"
  by (auto simp: read_hint_def fseek_def fread_def split: if_splits option.splits)

lemma read_Name_SomeD:
  "read_Name f = Some (nm, f') \<Longrightarrow>
   pos f + sizeof_Name \<le> length (content f) \<and>
   nm = c_str ((take sizeof_Name (drop (pos f) (content f)))[sizeof_Name - 1 := NUL]) \<and>
   f' = f\<lparr>pos := pos f + sizeof_Name\<rparr>"
  by (auto simp: read_Name_def fread_def split: if_splits)

lemma read_entry_InrD:
  "read_entry a f Path FileHeader Sections off = Inr (Hint, f4) \<Longrightarrow>
   \<exists>AddressOfData f2. read_thunk a f Path off = Inr (AddressOfData, f2) \<and>
     read_hint f2 Path FileHeader Sections AddressOfData = Inr (Hint, f4)"
  by (auto simp: read_entry_def split: sum.splits)

lemma read_entry_content_result:
  "read_entry a f Path FileHeader Sections off = Inr (Hint, f4) \<Longrightarrow> content f4 = content f"
  by (auto dest!: read_entry_InrD read_thunk_InrD read_hint_InrD)

lemma walk_thunks_content:
  "content f = content g \<Longrightarrow>
   walk_thunks a f Path FileHeader Sections off names =
   walk_thunks a g Path FileHeader Sections off names"
  by (subst walk_thunks.simps, subst (2) walk_thunks.simps)
     (simp add: read_thunk_content [of f g])

lemma walk_thunks_entry:
  "walk_thunks a f Path FileHeader Sections off names =
     (case read_entry a f Path FileHeader Sections off of
        Inl e \<Rightarrow> Inl e
      | Inr (Hint, f4) \<Rightarrow>
          if Hint = MZ then Inr (names, f4)
          else
            (case read_Name f4 of
               None \<Rightarrow> Inl (Return 9 [Diagnostic Path
                 ''File too small to read thunk name from thunk''])
             | Some (nm, f5) \<Rightarrow>
                 walk_thunks a f Path FileHeader Sections
                   (off + of_nat (sizeof_IMAGE_THUNK_DATA a)) (names @ [nm])))"
proof -
  have same: "walk_thunks a f5 Path FileHeader Sections off' names' =
      walk_thunks a f Path FileHeader Sections off' names'"
    if "read_entry a f Path FileHeader Sections off = Inr (Hint, f4)"
      and "read_Name f4 = Some (nm, f5)" for Hint f4 nm f5 off' names'
  proof -
    from that have "content f5 = content f"
      by (auto dest!: read_entry_content_result read_Name_SomeD)
    then show ?thesis by (rule walk_thunks_content)
  qed
  show ?thesis
    by (subst walk_thunks.simps)
       (auto simp: read_entry_def same split: sum.splits option.splits)
qed

lemma walk_thunks_stop:
  "read_entry a f Path FileHeader Sections off = Inr (MZ, f4) \<Longrightarrow>
   walk_thunks a f Path FileHeader Sections off names = Inr (names, f4)"
  by (subst walk_thunks_entry) simp

lemma walk_thunks_next:
  "read_entry a f Path FileHeader Sections off = Inr (Hint, f4) \<Longrightarrow> Hint \<noteq> MZ \<Longrightarrow>
   read_Name f4 = Some (nm, f5) \<Longrightarrow>
   walk_thunks a f Path FileHeader Sections off names =
   walk_thunks a f Path FileHeader Sections (thunk_offset a off (Suc 0)) (names @ [nm])"
  by (subst walk_thunks_entry) (simp add: thunk_offset_def)

lemma thunk_offset_0 [simp]: "thunk_offset a off 0 = off"
  by (simp add: thunk_offset_def)

lemma thunk_offset_Suc:
  "thunk_offset a (thunk_offset a off (Suc 0)) i = thunk_offset a off (Suc i)"
  by (simp add: thunk_offset_def algebra_simps)

lemma entry_name_SomeD:
  "entry_name a f Path FileHeader Sections off = Some nm \<Longrightarrow>
   \<exists>Hint f4 f5. read_entry a f Path FileHeader Sections off = Inr (Hint, f4) \<and> Hint \<noteq> MZ \<and>
     read_Name f4 = Some (nm, f5)"
  by (auto simp: entry_name_def split: sum.splits if_splits option.splits)

lemma entry_name_SomeI:
  "read_entry a f Path FileHeader Sections off = Inr (Hint, f4) \<Longrightarrow> Hint \<noteq> MZ \<Longrightarrow>
   read_Name f4 = Some (nm, f5) \<Longrightarrow> entry_name a f Path FileHeader Sections off = Some nm"
  by (simp add: entry_name_def)

lemma entry_name_content:
  "content f = content g \<Longrightarrow>
   entry_name a f Path FileHeader Sections off = entry_name a g Path FileHeader Sections off"
  by (simp add: entry_name_def read_entry_content [of f g])

lemma walk_thunks_InrI:
  "\<forall>i<length new. entry_name a f Path FileHeader Sections (thunk_offset a off i) = Some (new ! i) \<Longrightarrow>
   read_entry a f Path FileHeader Sections (thunk_offset a off (length new)) = Inr (MZ, f') \<Longrightarrow>
   walk_thunks a f Path FileHeader Sections off names = Inr (names @ new, f')"
proof (induction new arbitrary: off names)
  case Nil
  then show ?case by (simp add: walk_thunks_stop)
next
  case (Cons n new)
  from Cons.prems(1) have "entry_name a f Path FileHeader Sections (thunk_offset a off 0) = Some n"
    by auto
  then obtain Hint f4 f5 where
    "read_entry a f Path FileHeader Sections off = Inr (Hint, f4)" "Hint \<noteq> MZ"
    "read_Name f4 = Some (n, f5)"
    by (auto dest: entry_name_SomeD)
  then have step: "walk_thunks a f Path FileHeader Sections off names =
      walk_thunks a f Path FileHeader Sections (thunk_offset a off (Suc 0)) (names @ [n])"
    by (rule walk_thunks_next)
  have "\<forall>i<length new. entry_name a f Path FileHeader Sections
          (thunk_offset a (thunk_offset a off (Suc 0)) i) = Some (new ! i)"
  proof (intro allI impI)
    fix i assume "i < length new"
    then have "Suc i < length (n # new)" by simp
    from Cons.prems(1) [rule_format, OF this]
    show "entry_name a f Path FileHeader Sections
        (thunk_offset a (thunk_offset a off (Suc 0)) i) = Some (new ! i)"
      by (simp add: thunk_offset_Suc)
  qed
  moreover have "read_entry a f Path FileHeader Sections
      (thunk_offset a (thunk_offset a off (Suc 0)) (length new)) = Inr (MZ, f')"
    using Cons.prems(2) by (simp add: thunk_offset_Suc)
  ultimately have "walk_thunks a f Path FileHeader Sections (thunk_offset a off (Suc 0))
      (names @ [n]) =
      Inr ((names @ [n]) @ new, f')"
    by (rule Cons.IH)
  with step show ?case by simp
qed

lemma walk_thunks_InrD:
  "walk_thunks a f Path FileHeader Sections off names = Inr (names', f') \<Longrightarrow>
   \<exists>new. names' = names @ new \<and>
     (\<forall>i<length new.
        entry_name a f Path FileHeader Sections (thunk_offset a off i) = Some (new ! i)) \<and>
     read_entry a f Path FileHeader Sections (thunk_offset a off (length new)) = Inr (MZ, f')"
proof (induction a f Path FileHeader Sections off names rule: walk_thunks.induct)
  case (1 a f Path FileHeader Sections off names)
  note walk = "1.prems"
  show ?case
  proof (cases "read_entry a f Path FileHeader Sections off")
    case (Inl e)
    with walk show ?thesis by (simp add: walk_thunks_entry)
  next
    case (Inr y)
    obtain Hint f4 where y: "y = (Hint, f4)" by (cases y)
    note entry = Inr [unfolded y]
    show ?thesis
    proof (cases "Hint = MZ")
      case True
      with walk entry have "names' = names" "f' = f4" by (simp_all add: walk_thunks_entry)
      with entry True show ?thesis by (intro exI [of _ "[]"]) simp
    next
      case False
      show ?thesis
      proof (cases "read_Name f4")
        case None
        with walk entry False show ?thesis by (simp add: walk_thunks_entry)
      next
        case (Some z)
        obtain nm f5 where z: "z = (nm, f5)" by (cases z)
        note name = Some [unfolded z]
        from entry obtain AddressOfData f2 where
          thunk: "read_thunk a f Path off = Inr (AddressOfData, f2)" and
          hint: "read_hint f2 Path FileHeader Sections AddressOfData = Inr (Hint, f4)"
          by (auto dest: read_entry_InrD)
        have c5: "content f5 = content f"
          using entry name by (auto dest!: read_entry_content_result read_Name_SomeD)
        have "walk_thunks a f Path FileHeader Sections off names =
            walk_thunks a f Path FileHeader Sections (thunk_offset a off (Suc 0)) (names @ [nm])"
          using entry False name by (rule walk_thunks_next)
        also have "\<dots> = walk_thunks a f5 Path FileHeader Sections
            (thunk_offset a off (Suc 0)) (names @ [nm])"
          by (rule walk_thunks_content [OF c5 [symmetric]])
        finally have "walk_thunks a f5 Path FileHeader Sections
                (off + of_nat (sizeof_IMAGE_THUNK_DATA a)) (names @ [nm]) = Inr (names', f')"
          using walk by (simp add: thunk_offset_def)
        from "1.IH" [OF thunk refl hint refl False name refl this]
        obtain new where new: "names' = (names @ [nm]) @ new"
          "\<forall>i<length new. entry_name a f5 Path FileHeader Sections
              (thunk_offset a (off + of_nat (sizeof_IMAGE_THUNK_DATA a)) i) = Some (new ! i)"
          "read_entry a f5 Path FileHeader Sections
              (thunk_offset a (off + of_nat (sizeof_IMAGE_THUNK_DATA a)) (length new)) = Inr (MZ, f')"
          by blast
        have shift: "thunk_offset a (off + of_nat (sizeof_IMAGE_THUNK_DATA a)) i =
            thunk_offset a off (Suc i)" for i
          by (simp add: thunk_offset_def algebra_simps)
        have first: "entry_name a f Path FileHeader Sections off = Some nm"
          using entry False name by (rule entry_name_SomeI)
        have "\<forall>i<length (nm # new).
            entry_name a f Path FileHeader Sections (thunk_offset a off i) = Some ((nm # new) ! i)"
        proof (intro allI impI)
          fix i assume "i < length (nm # new)"
          then show "entry_name a f Path FileHeader Sections (thunk_offset a off i) =
              Some ((nm # new) ! i)"
            using first new(2) by (cases i) (auto simp: shift entry_name_content [OF c5])
        qed
        moreover have "read_entry a f Path FileHeader Sections
            (thunk_offset a off (length (nm # new))) = Inr (MZ, f')"
          using new(3) by (simp add: shift read_entry_content [OF c5])
        moreover have "names' = names @ (nm # new)" using new(1) by simp
        ultimately show ?thesis by blast
      qed
    qed
  qed
qed

section \<open>The loop over the import descriptors\<close>

lemma walk_thunks_result_content:
  "walk_thunks a f Path FileHeader Sections off names = Inr (names', f') \<Longrightarrow>
   content f' = content f"
  by (blast dest: walk_thunks_InrD read_entry_content_result)

lemma read_Name_content:
  "content f = content g \<Longrightarrow> pos f = pos g \<Longrightarrow>
   map_option fst (read_Name f) = map_option fst (read_Name g)"
  by (simp add: read_Name_def fread_def)

lemma fseek_SomeD:
  "fseek f Offset = Some f1 \<Longrightarrow> \<not> sint Offset < 0 \<and> f1 = f\<lparr>pos := unat Offset\<rparr>"
  by (auto simp: fseek_def split: if_splits)

lemma import_loop_Cons_InrD:
  "import_loop a f Path FileHeader Sections (d # ds) dlls thunks = Inr (dlls', thunks', f') \<Longrightarrow>
   \<exists>Offset nm f2 ThunkOffset names f3.
     SectionRvaFileOffset FileHeader Sections (Name d) = Some Offset \<and>
     \<not> sint Offset < 0 \<and>
     read_Name (f\<lparr>pos := unat Offset\<rparr>) = Some (nm, f2) \<and>
     SectionRvaFileOffset FileHeader Sections (FirstThunk d) = Some ThunkOffset \<and>
     walk_thunks a f2 Path FileHeader Sections ThunkOffset [] = Inr (names, f3) \<and>
     import_loop a f3 Path FileHeader Sections ds (dlls @ [nm]) (thunks @ [names]) =
       Inr (dlls', thunks', f')"
  by (auto simp: fseek_def split: option.splits sum.splits if_splits)

lemma import_loop_InrD:
  "import_loop a f Path FileHeader Sections ds dlls thunks = Inr (dlls', thunks', f') \<Longrightarrow>
   content f' = content f \<and>
   (\<exists>nd nt. dlls' = dlls @ nd \<and> thunks' = thunks @ nt \<and>
      length nd = length ds \<and> length nt = length ds \<and>
      (\<forall>i<length ds. \<exists>Offset ThunkOffset g h.
         SectionRvaFileOffset FileHeader Sections (Name (ds ! i)) = Some Offset \<and>
         \<not> sint Offset < 0 \<and>
         read_Name (f\<lparr>pos := unat Offset\<rparr>) = Some (nd ! i, g) \<and>
         SectionRvaFileOffset FileHeader Sections (FirstThunk (ds ! i)) = Some ThunkOffset \<and>
         walk_thunks a f Path FileHeader Sections ThunkOffset [] = Inr (nt ! i, h)))"
proof (induction ds arbitrary: f dlls thunks)
  case Nil
  then show ?case by simp
next
  case (Cons d ds)
  from Cons.prems obtain Offset nm f2 ThunkOffset names f3 where
    off: "SectionRvaFileOffset FileHeader Sections (Name d) = Some Offset" and
    seek: "\<not> sint Offset < 0" and
    name: "read_Name (f\<lparr>pos := unat Offset\<rparr>) = Some (nm, f2)" and
    first: "SectionRvaFileOffset FileHeader Sections (FirstThunk d) = Some ThunkOffset" and
    walk: "walk_thunks a f2 Path FileHeader Sections ThunkOffset [] = Inr (names, f3)" and
    rest: "import_loop a f3 Path FileHeader Sections ds (dlls @ [nm]) (thunks @ [names]) =
       Inr (dlls', thunks', f')"
    by (blast dest: import_loop_Cons_InrD)
  have c2: "content f2 = content f" using name by (auto dest: read_Name_SomeD)
  have c3: "content f3 = content f" using walk c2 by (auto dest: walk_thunks_result_content)
  have walk': "walk_thunks a f Path FileHeader Sections ThunkOffset [] = Inr (names, f3)"
    using walk by (simp add: walk_thunks_content [OF c2])
  from Cons.IH [OF rest] obtain nd nt where
    cf: "content f' = content f3" and
    nd: "dlls' = (dlls @ [nm]) @ nd" "thunks' = (thunks @ [names]) @ nt"
      "length nd = length ds" "length nt = length ds" and
    each: "\<forall>i<length ds. \<exists>Offset ThunkOffset g h.
         SectionRvaFileOffset FileHeader Sections (Name (ds ! i)) = Some Offset \<and>
         \<not> sint Offset < 0 \<and>
         read_Name (f3\<lparr>pos := unat Offset\<rparr>) = Some (nd ! i, g) \<and>
         SectionRvaFileOffset FileHeader Sections (FirstThunk (ds ! i)) = Some ThunkOffset \<and>
         walk_thunks a f3 Path FileHeader Sections ThunkOffset [] = Inr (nt ! i, h)"
    by blast
  have each': "\<exists>Offset ThunkOffset g h.
         SectionRvaFileOffset FileHeader Sections (Name ((d # ds) ! i)) = Some Offset \<and>
         \<not> sint Offset < 0 \<and>
         read_Name (f\<lparr>pos := unat Offset\<rparr>) = Some ((nm # nd) ! i, g) \<and>
         SectionRvaFileOffset FileHeader Sections (FirstThunk ((d # ds) ! i)) = Some ThunkOffset \<and>
         walk_thunks a f Path FileHeader Sections ThunkOffset [] = Inr ((names # nt) ! i, h)"
    if i: "i < length (d # ds)" for i
  proof (cases i)
    case 0
    with off seek name first walk' show ?thesis by simp
  next
    case (Suc j)
    with i have "j < length ds" by simp
    with each obtain Offset ThunkOffset g h where
      "SectionRvaFileOffset FileHeader Sections (Name (ds ! j)) = Some Offset"
      "\<not> sint Offset < 0"
      "read_Name (f3\<lparr>pos := unat Offset\<rparr>) = Some (nd ! j, g)"
      "SectionRvaFileOffset FileHeader Sections (FirstThunk (ds ! j)) = Some ThunkOffset"
      "walk_thunks a f3 Path FileHeader Sections ThunkOffset [] = Inr (nt ! j, h)"
      by blast
    then show ?thesis
      using Suc by (simp add: FILE_content_eq [OF c3] walk_thunks_content [OF c3])
  qed
  have cf': "content f' = content f" using cf c3 by simp
  have all: "\<forall>i<length (d # ds). \<exists>Offset ThunkOffset g h.
         SectionRvaFileOffset FileHeader Sections (Name ((d # ds) ! i)) = Some Offset \<and>
         \<not> sint Offset < 0 \<and>
         read_Name (f\<lparr>pos := unat Offset\<rparr>) = Some ((nm # nd) ! i, g) \<and>
         SectionRvaFileOffset FileHeader Sections (FirstThunk ((d # ds) ! i)) = Some ThunkOffset \<and>
         walk_thunks a f Path FileHeader Sections ThunkOffset [] = Inr ((names # nt) ! i, h)"
    using each' by (intro allI impI)
  have "dlls' = dlls @ (nm # nd) \<and> thunks' = thunks @ (names # nt) \<and>
    length (nm # nd) = length (d # ds) \<and> length (names # nt) = length (d # ds) \<and>
    (\<forall>i<length (d # ds). \<exists>Offset ThunkOffset g h.
         SectionRvaFileOffset FileHeader Sections (Name ((d # ds) ! i)) = Some Offset \<and>
         \<not> sint Offset < 0 \<and>
         read_Name (f\<lparr>pos := unat Offset\<rparr>) = Some ((nm # nd) ! i, g) \<and>
         SectionRvaFileOffset FileHeader Sections (FirstThunk ((d # ds) ! i)) = Some ThunkOffset \<and>
         walk_thunks a f Path FileHeader Sections ThunkOffset [] = Inr ((names # nt) ! i, h))"
    using nd by (intro conjI all) simp_all
  then have "\<exists>nd nt. dlls' = dlls @ nd \<and> thunks' = thunks @ nt \<and>
      length nd = length (d # ds) \<and> length nt = length (d # ds) \<and>
      (\<forall>i<length (d # ds). \<exists>Offset ThunkOffset g h.
         SectionRvaFileOffset FileHeader Sections (Name ((d # ds) ! i)) = Some Offset \<and>
         \<not> sint Offset < 0 \<and>
         read_Name (f\<lparr>pos := unat Offset\<rparr>) = Some (nd ! i, g) \<and>
         SectionRvaFileOffset FileHeader Sections (FirstThunk ((d # ds) ! i)) = Some ThunkOffset \<and>
         walk_thunks a f Path FileHeader Sections ThunkOffset [] = Inr (nt ! i, h))"
    by (intro exI [of _ "nm # nd"] exI [of _ "names # nt"])
  with cf' show ?case by (rule conjI)
qed

lemma read_descriptors_InrD:
  "read_descriptors f Path k ds = Inr (ds', f') \<Longrightarrow>
   content f' = content f \<and> length ds' = length ds + k"
proof (induction k arbitrary: f ds)
  case 0
  then show ?case by simp
next
  case (Suc k)
  then show ?case by (auto split: option.splits dest!: fread_SomeD)
qed

lemma ReadImportDescriptors_InrD:
  assumes "ReadImportDescriptors a f Path FileHeader OptionalHeader Sections =
             Inr (ds, dlls, thunks, f')"
  shows "length ds = unat (NumberOfEntries OptionalHeader) \<and>
     length dlls = length ds \<and> length thunks = length ds \<and> content f' = content f \<and>
     (\<forall>i<length ds. \<exists>Offset ThunkOffset g h.
         SectionRvaFileOffset FileHeader Sections (Name (ds ! i)) = Some Offset \<and>
         \<not> sint Offset < 0 \<and>
         read_Name (f\<lparr>pos := unat Offset\<rparr>) = Some (dlls ! i, g) \<and>
         SectionRvaFileOffset FileHeader Sections (FirstThunk (ds ! i)) = Some ThunkOffset \<and>
         walk_thunks a f Path FileHeader Sections ThunkOffset [] = Inr (thunks ! i, h))"
proof -
  from assms obtain Offset :: DWORD and f2 where
    rd: "read_descriptors (f\<lparr>pos := unat Offset\<rparr>) Path (unat (NumberOfEntries OptionalHeader)) []
           = Inr (ds, f2)" and
    loop: "import_loop a f2 Path FileHeader Sections ds [] [] = Inr (dlls, thunks, f')"
    by (auto simp: ReadImportDescriptors_def fseek_def
             split: option.splits sum.splits if_splits)
  from rd have c2: "content f2 = content f" and len: "length ds = unat (NumberOfEntries OptionalHeader)"
    by (auto dest!: read_descriptors_InrD)
  from import_loop_InrD [OF loop] obtain nd nt where
    cf: "content f' = content f2" and
    nd: "dlls = [] @ nd" "thunks = [] @ nt" "length nd = length ds" "length nt = length ds" and
    each: "\<forall>i<length ds. \<exists>Offset ThunkOffset g h.
         SectionRvaFileOffset FileHeader Sections (Name (ds ! i)) = Some Offset \<and>
         \<not> sint Offset < 0 \<and>
         read_Name (f2\<lparr>pos := unat Offset\<rparr>) = Some (nd ! i, g) \<and>
         SectionRvaFileOffset FileHeader Sections (FirstThunk (ds ! i)) = Some ThunkOffset \<and>
         walk_thunks a f2 Path FileHeader Sections ThunkOffset [] = Inr (nt ! i, h)"
    by (elim conjE exE)
  have "\<forall>i<length ds. \<exists>Offset ThunkOffset g h.
         SectionRvaFileOffset FileHeader Sections (Name (ds ! i)) = Some Offset \<and>
         \<not> sint Offset < 0 \<and>
         read_Name (f\<lparr>pos := unat Offset\<rparr>) = Some (dlls ! i, g) \<and>
         SectionRvaFileOffset FileHeader Sections (FirstThunk (ds ! i)) = Some ThunkOffset \<and>
         walk_thunks a f Path FileHeader Sections ThunkOffset [] = Inr (thunks ! i, h)"
    using each nd(1,2) by (simp add: FILE_content_eq [OF c2] walk_thunks_content [OF c2])
  then show ?thesis using len nd cf c2 by simp
qed

subsection \<open>The name buffer\<close>

lemma c_str_no_NUL: "NUL \<notin> set (c_str buf)"
  by (auto simp: c_str_def dest: set_takeWhileD)

lemma c_str_update: "c_str (xs[i := NUL]) = take i (c_str xs)"
proof (induction xs arbitrary: i)
  case Nil
  then show ?case by (simp add: c_str_def)
next
  case (Cons x xs)
  then show ?case by (cases i) (simp_all add: c_str_def)
qed

lemma c_str_take: "c_str (take n xs) = take n (c_str xs)"
proof (induction xs arbitrary: n)
  case Nil
  then show ?case by (simp add: c_str_def)
next
  case (Cons x xs)
  then show ?case by (cases n) (simp_all add: c_str_def)
qed

lemma c_str_append_NUL: "NUL \<notin> set s \<Longrightarrow> c_str (s @ NUL # rest) = s"
  by (induction s) (auto simp: c_str_def)

lemma read_Name_eq:
  "read_Name f =
     (if pos f + sizeof_Name \<le> length (content f)
      then Some (take (sizeof_Name - 1) (c_str (drop (pos f) (content f))),
                 f\<lparr>pos := pos f + sizeof_Name\<rparr>)
      else None)"
proof -
  have "take (sizeof_Name - 1) (take sizeof_Name xs) = take (sizeof_Name - 1) xs"
    for xs :: string
    by (simp add: sizeof_Name_def min_def)
  then show ?thesis
    by (simp add: read_Name_def fread_def c_str_update c_str_take)
qed

lemma read_Name_bounded:
  assumes "read_Name f = Some (nm, f')"
  shows "length nm < sizeof_Name \<and> NUL \<notin> set nm \<and> pos f' = pos f + sizeof_Name"
proof -
  from assms have nm: "nm = take (sizeof_Name - 1) (c_str (drop (pos f) (content f)))"
    and f': "f' = f\<lparr>pos := pos f + sizeof_Name\<rparr>"
    by (auto simp: read_Name_eq split: if_splits)
  have "NUL \<notin> set nm" unfolding nm using c_str_no_NUL by (auto dest: in_set_takeD)
  moreover have "length nm < sizeof_Name" unfolding nm by (simp add: sizeof_Name_def)
  ultimately show ?thesis using f' by simp
qed

lemma read_Name_truncates:
  assumes clean: "NUL \<notin> set s"
    and at: "drop (pos f) (content f) = s @ NUL # rest"
    and avail: "sizeof_Name \<le> length s + 1 + length rest"
  shows "read_Name f = Some (take (sizeof_Name - 1) s, f\<lparr>pos := pos f + sizeof_Name\<rparr>)"
proof -
  have "length (drop (pos f) (content f)) = length s + 1 + length rest"
    by (simp add: at)
  with avail have fits: "pos f + sizeof_Name \<le> length (content f)" by simp
  then show ?thesis using clean by (simp add: read_Name_eq at c_str_append_NUL)
qed
subsection \<open>Evaluation on concrete images\<close>

lemma section_scan_unfold:
  "section_scan n Sections Rva =
     (if n = 0 then Some 0
      else (case Sections of
              [] \<Rightarrow> None
            | s # ss \<Rightarrow>
                if VirtualAddress s \<le> Rva \<and> Rva < VirtualAddress s + VirtualSize s
                then Some ((Rva - VirtualAddress s) + PointerToRawData s)
                else section_scan (n - 1) ss Rva))"
  by (cases n; cases Sections) auto

lemma read_descriptors_unfold:
  "read_descriptors f Path k ds =
     (if k = 0 then Inr (ds, f)
      else (case fread f sizeof_IMAGE_IMPORT_DESCRIPTOR of
              None \<Rightarrow> Inl (Return 2 [Diagnostic Path ''File too small to read import descriptor''])
            | Some (bs, f1) \<Rightarrow>
                read_descriptors f1 Path (k - 1) (ds @ [decode_IMAGE_IMPORT_DESCRIPTOR bs])))"
  by (cases k) (auto split: option.splits)

lemma funpow_times_0: "((*) (256 :: nat) ^^ n) 0 = 0"
  by (induction n) simp_all

lemmas eval_defs = funpow_times_0 fread_def fseek_def le_word_def field_def NUL_def MZ_def
  SectionRvaFileOffset_def section_scan_unfold read_descriptors_unfold
  sizeof_IMAGE_IMPORT_DESCRIPTOR_def sizeof_Name_def c_str_def read_Name_eq
  read_thunk_def read_hint_def read_entry_def hint_at_def entry_name_def thunk_offset_def
  decode_IMAGE_IMPORT_DESCRIPTOR_def NumberOfEntries_def

lemmas tiny_defs = tiny_sys_def tiny_FileHeader_def tiny_OptionalHeader_def tiny_Sections_def

lemmas zero_defs = zero_sys_def zero_FileHeader_def zero_Sections_def

text \<open>
  Claim C2. The walk over a thunk array returns normally exactly when some round reads a
  hint equal to "MZ": every round before it reads a hint different from "MZ" and appends
  exactly one name, the one read after that hint. The value of the thunk entry is not
  tested anywhere, so a zero entry does not by itself stop the walk.
\<close>

theorem walk_thunks_stops_at_MZ_hint:
  "(\<exists>f'. walk_thunks a f Path FileHeader Sections ThunkOffset names = Inr (names', f')) \<longleftrightarrow>
   (\<exists>new. names' = names @ new \<and>
      (\<forall>i<length new. \<exists>Hint.
         hint_at a f Path FileHeader Sections (thunk_offset a ThunkOffset i) = Some Hint \<and>
         Hint \<noteq> MZ \<and>
         entry_name a f Path FileHeader Sections (thunk_offset a ThunkOffset i) = Some (new ! i)) \<and>
      hint_at a f Path FileHeader Sections (thunk_offset a ThunkOffset (length new)) = Some MZ)"
proof
  assume "\<exists>f'. walk_thunks a f Path FileHeader Sections ThunkOffset names = Inr (names', f')"
  then obtain f' where
    "walk_thunks a f Path FileHeader Sections ThunkOffset names = Inr (names', f')" ..
  then obtain new where new: "names' = names @ new"
    "\<forall>i<length new.
       entry_name a f Path FileHeader Sections (thunk_offset a ThunkOffset i) = Some (new ! i)"
    "read_entry a f Path FileHeader Sections (thunk_offset a ThunkOffset (length new)) =
       Inr (MZ, f')"
    by (blast dest: walk_thunks_InrD)
  have "\<exists>Hint. hint_at a f Path FileHeader Sections (thunk_offset a ThunkOffset i) = Some Hint \<and>
          Hint \<noteq> MZ \<and>
          entry_name a f Path FileHeader Sections (thunk_offset a ThunkOffset i) = Some (new ! i)"
    if "i < length new" for i
  proof -
    from new(2) that
    have nm: "entry_name a f Path FileHeader Sections (thunk_offset a ThunkOffset i) =
        Some (new ! i)" by blast
    then obtain Hint f4 where
      "read_entry a f Path FileHeader Sections (thunk_offset a ThunkOffset i) = Inr (Hint, f4)"
      "Hint \<noteq> MZ"
      by (blast dest: entry_name_SomeD)
    with nm show ?thesis by (simp add: hint_at_def)
  qed
  moreover have "hint_at a f Path FileHeader Sections
      (thunk_offset a ThunkOffset (length new)) = Some MZ"
    using new(3) by (simp add: hint_at_def)
  ultimately show "\<exists>new. names' = names @ new \<and>
      (\<forall>i<length new. \<exists>Hint.
         hint_at a f Path FileHeader Sections (thunk_offset a ThunkOffset i) = Some Hint \<and>
         Hint \<noteq> MZ \<and>
         entry_name a f Path FileHeader Sections (thunk_offset a ThunkOffset i) = Some (new ! i)) \<and>
      hint_at a f Path FileHeader Sections (thunk_offset a ThunkOffset (length new)) = Some MZ"
    using new(1) by blast
next
  assume "\<exists>new. names' = names @ new \<and>
      (\<forall>i<length new. \<exists>Hint.
         hint_at a f Path FileHeader Sections (thunk_offset a ThunkOffset i) = Some Hint \<and>
         Hint \<noteq> MZ \<and>
         entry_name a f Path FileHeader Sections (thunk_offset a ThunkOffset i) = Some (new ! i)) \<and>
      hint_at a f Path FileHeader Sections (thunk_offset a ThunkOffset (length new)) = Some MZ"
  then obtain new where new: "names' = names @ new"
    "\<forall>i<length new.
       entry_name a f Path FileHeader Sections (thunk_offset a ThunkOffset i) = Some (new ! i)"
    "hint_at a f Path FileHeader Sections (thunk_offset a ThunkOffset (length new)) = Some MZ"
    by blast
  from new(3) obtain f' where
    "read_entry a f Path FileHeader Sections (thunk_offset a ThunkOffset (length new)) =
       Inr (MZ, f')"
    by (auto simp: hint_at_def split: sum.splits)
  with new(2)
  have "walk_thunks a f Path FileHeader Sections ThunkOffset names = Inr (names @ new, f')"
    by (rule walk_thunks_InrI)
  with new(1)
  show "\<exists>f'. walk_thunks a f Path FileHeader Sections ThunkOffset names = Inr (names', f')"
    by blast
qed

theorem walk_thunks_stops_at_MZ_hint_witness:
  "read_thunk M_I386 \<lparr>content = zero_sys, pos = 0\<rparr> ''z.sys'' 4 =
     Inr (0, \<lparr>content = zero_sys, pos = 8\<rparr>)
   \<and> hint_at M_I386 \<lparr>content = zero_sys, pos = 0\<rparr> ''z.sys'' zero_FileHeader zero_Sections
       (thunk_offset M_I386 4 0) = Some 0
   \<and> entry_name M_I386 \<lparr>content = zero_sys, pos = 0\<rparr> ''z.sys'' zero_FileHeader zero_Sections
       (thunk_offset M_I386 4 0) = Some ''A''
   \<and> hint_at M_I386 \<lparr>content = zero_sys, pos = 0\<rparr> ''z.sys'' zero_FileHeader zero_Sections
       (thunk_offset M_I386 4 1) = Some MZ
   \<and> (\<exists>f'. walk_thunks M_I386 \<lparr>content = zero_sys, pos = 0\<rparr> ''z.sys'' zero_FileHeader
         zero_Sections 4 [] = Inr ([''A''], f'))"
proof -
  let ?f = "\<lparr>content = zero_sys, pos = 0\<rparr>"
  have thunk: "read_thunk M_I386 ?f ''z.sys'' 4 = Inr (0, \<lparr>content = zero_sys, pos = 8\<rparr>)"
    by (simp add: eval_defs zero_defs)
  have h0: "hint_at M_I386 ?f ''z.sys'' zero_FileHeader zero_Sections (thunk_offset M_I386 4 0)
      = Some 0"
    by (simp add: eval_defs zero_defs)
  have n0: "entry_name M_I386 ?f ''z.sys'' zero_FileHeader zero_Sections (thunk_offset M_I386 4 0)
      = Some ''A''"
    by (simp add: eval_defs zero_defs)
  have h1: "hint_at M_I386 ?f ''z.sys'' zero_FileHeader zero_Sections (thunk_offset M_I386 4 1)
      = Some MZ"
    by (simp add: eval_defs zero_defs)
  have "\<exists>new. [''A''] = [] @ new \<and>
      (\<forall>i<length new. \<exists>Hint.
         hint_at M_I386 ?f ''z.sys'' zero_FileHeader zero_Sections (thunk_offset M_I386 4 i)
           = Some Hint \<and> Hint \<noteq> MZ \<and>
         entry_name M_I386 ?f ''z.sys'' zero_FileHeader zero_Sections (thunk_offset M_I386 4 i)
           = Some (new ! i)) \<and>
      hint_at M_I386 ?f ''z.sys'' zero_FileHeader zero_Sections
        (thunk_offset M_I386 4 (length new)) = Some MZ"
    using h0 n0 h1 by (intro exI [of _ "[''A'']"]) (simp add: MZ_def)
  then have "\<exists>f'. walk_thunks M_I386 ?f ''z.sys'' zero_FileHeader zero_Sections 4 [] =
      Inr ([''A''], f')"
    by (rule walk_thunks_stops_at_MZ_hint [THEN iffD2])
  with thunk h0 n0 h1 show ?thesis by blast
qed


lemma walk_thunks_names_bounded:
  assumes "walk_thunks a f Path FileHeader Sections off [] = Inr (names, f')"
  shows "\<forall>n\<in>set names. length n < sizeof_Name"
proof
  fix n assume "n \<in> set names"
  then obtain i where i: "i < length names" "names ! i = n" by (auto simp: in_set_conv_nth)
  from walk_thunks_InrD [OF assms] obtain new where "names = [] @ new"
    and each: "\<forall>i<length new.
      entry_name a f Path FileHeader Sections (thunk_offset a off i) = Some (new ! i)"
    by (elim exE conjE)
  with i have "entry_name a f Path FileHeader Sections (thunk_offset a off i) = Some n"
    by simp
  then obtain f4 f5 where "read_Name f4 = Some (n, f5)" by (blast dest: entry_name_SomeD)
  then show "length n < sizeof_Name" by (simp add: read_Name_bounded)
qed

lemma ReadImportDescriptors_names_bounded:
  assumes "ReadImportDescriptors a f Path FileHeader OptionalHeader Sections =
             Inr (ds, dlls, thunks, f')"
  shows "(\<forall>n\<in>set dlls. length n < sizeof_Name) \<and>
         (\<forall>ns\<in>set thunks. \<forall>n\<in>set ns. length n < sizeof_Name)"
proof -
  from ReadImportDescriptors_InrD [OF assms]
  have len: "length dlls = length ds" "length thunks = length ds"
    and each: "\<forall>i<length ds. \<exists>Offset ThunkOffset g h.
         SectionRvaFileOffset FileHeader Sections (Name (ds ! i)) = Some Offset \<and>
         \<not> sint Offset < 0 \<and>
         read_Name (f\<lparr>pos := unat Offset\<rparr>) = Some (dlls ! i, g) \<and>
         SectionRvaFileOffset FileHeader Sections (FirstThunk (ds ! i)) = Some ThunkOffset \<and>
         walk_thunks a f Path FileHeader Sections ThunkOffset [] = Inr (thunks ! i, h)"
    by simp_all
  have "length n < sizeof_Name" if "n \<in> set dlls" for n
  proof -
    from that len obtain i where i: "i < length ds" "dlls ! i = n"
      by (auto simp: in_set_conv_nth)
    with each obtain h g where "read_Name h = Some (n, g)" by metis
    then show ?thesis by (simp add: read_Name_bounded)
  qed
  moreover have "\<forall>n\<in>set ns. length n < sizeof_Name" if "ns \<in> set thunks" for ns
  proof -
    from that len obtain i where i: "i < length ds" "thunks ! i = ns"
      by (auto simp: in_set_conv_nth)
    with each obtain off h where
      "walk_thunks a f Path FileHeader Sections off [] = Inr (ns, h)" by metis
    then show ?thesis by (rule walk_thunks_names_bounded)
  qed
  ultimately show ?thesis by blast
qed

text \<open>
  Claim C5. A name is read by one \<^verbatim>\<open>fread\<close> of exactly 32 bytes into the 32-byte buffer,
  whose last byte is then set to 0: the stored string has at most 31 characters and no
  0 byte. A name without 0 bytes that is followed by a 0 byte in the file is stored as
  its first 31 characters, whatever its length (31, 32 and 100 included). Every DLL name
  and every symbol name that \<^verbatim>\<open>ReadImportDescriptors\<close> returns is read this way.
\<close>

theorem names_fit_Name_buffer:
  "(read_Name f = Some (nm, f') \<longrightarrow>
      length nm < sizeof_Name \<and> NUL \<notin> set nm \<and> pos f' = pos f + sizeof_Name)
   \<and> (NUL \<notin> set s \<and> drop (pos f) (content f) = s @ NUL # rest \<and>
        sizeof_Name \<le> length s + 1 + length rest \<longrightarrow>
      read_Name f = Some (take (sizeof_Name - 1) s, f\<lparr>pos := pos f + sizeof_Name\<rparr>))
   \<and> (ReadImportDescriptors a g Path FileHeader OptionalHeader Sections =
          Inr (ds, dlls, thunks, g') \<longrightarrow>
      (\<forall>n\<in>set dlls. length n < sizeof_Name) \<and>
      (\<forall>ns\<in>set thunks. \<forall>n\<in>set ns. length n < sizeof_Name))"
  using read_Name_bounded [of f nm f'] read_Name_truncates [of s f rest]
    ReadImportDescriptors_names_bounded [of a g Path FileHeader OptionalHeader Sections
      ds dlls thunks g']
  by (intro conjI impI) blast+

theorem names_fit_Name_buffer_witness:
  "sizeof_Name = 32
   \<and> read_Name \<lparr>content = replicate 31 (CHR ''a'') @ [NUL], pos = 0\<rparr> =
       Some (replicate 31 (CHR ''a''),
             \<lparr>content = replicate 31 (CHR ''a'') @ [NUL], pos = 32\<rparr>)
   \<and> read_Name \<lparr>content = replicate 32 (CHR ''a'') @ [NUL], pos = 0\<rparr> =
       Some (replicate 31 (CHR ''a''),
             \<lparr>content = replicate 32 (CHR ''a'') @ [NUL], pos = 32\<rparr>)
   \<and> read_Name \<lparr>content = replicate 100 (CHR ''a'') @ [NUL], pos = 0\<rparr> =
       Some (replicate 31 (CHR ''a''),
             \<lparr>content = replicate 100 (CHR ''a'') @ [NUL], pos = 32\<rparr>)
   \<and> length (replicate 31 (CHR ''a'')) < sizeof_Name
   \<and> ReadImportDescriptors M_I386 \<lparr>content = tiny_sys, pos = 0\<rparr> ''k.sys''
        tiny_FileHeader tiny_OptionalHeader tiny_Sections =
       Inr ([\<lparr>Name = 0x1020, FirstThunk = 0x1018\<rparr>], [''k.sys''], [[''IoCreateDevice'']],
            \<lparr>content = tiny_sys, pos = 2\<rparr>)
   \<and> length ''k.sys'' < sizeof_Name \<and> length ''IoCreateDevice'' < sizeof_Name"
proof -
  let ?a = "CHR ''a''"
  have trunc: "read_Name \<lparr>content = replicate n ?a @ [NUL], pos = 0\<rparr> =
      Some (take (sizeof_Name - 1) (replicate n ?a),
            \<lparr>content = replicate n ?a @ [NUL], pos = 0\<rparr>\<lparr>pos := 0 + sizeof_Name\<rparr>)"
    if "31 \<le> n" for n
    using that
      names_fit_Name_buffer [of "\<lparr>content = replicate n ?a @ [NUL], pos = 0\<rparr>" _ _
        "replicate n ?a" "[]", THEN conjunct2, THEN conjunct1]
    by (simp add: NUL_def sizeof_Name_def)
  have r31: "read_Name \<lparr>content = replicate 31 ?a @ [NUL], pos = 0\<rparr> =
      Some (replicate 31 ?a, \<lparr>content = replicate 31 ?a @ [NUL], pos = 32\<rparr>)"
    using trunc [of 31] by (simp add: sizeof_Name_def)
  have r32: "read_Name \<lparr>content = replicate 32 ?a @ [NUL], pos = 0\<rparr> =
      Some (replicate 31 ?a, \<lparr>content = replicate 32 ?a @ [NUL], pos = 32\<rparr>)"
    using trunc [of 32] by (simp add: sizeof_Name_def)
  have r100: "read_Name \<lparr>content = replicate 100 ?a @ [NUL], pos = 0\<rparr> =
      Some (replicate 31 ?a, \<lparr>content = replicate 100 ?a @ [NUL], pos = 32\<rparr>)"
    using trunc [of 100] by (simp add: sizeof_Name_def)
  have len: "length (replicate 31 ?a) < sizeof_Name"
    using r31 names_fit_Name_buffer [of "\<lparr>content = replicate 31 ?a @ [NUL], pos = 0\<rparr>"
        "replicate 31 ?a" "\<lparr>content = replicate 31 ?a @ [NUL], pos = 32\<rparr>",
        THEN conjunct1]
    by blast
  have tiny: "ReadImportDescriptors M_I386 \<lparr>content = tiny_sys, pos = 0\<rparr> ''k.sys''
        tiny_FileHeader tiny_OptionalHeader tiny_Sections =
       Inr ([\<lparr>Name = 0x1020, FirstThunk = 0x1018\<rparr>], [''k.sys''], [[''IoCreateDevice'']],
            \<lparr>content = tiny_sys, pos = 2\<rparr>)"
    by (simp add: ReadImportDescriptors_def walk_thunks.simps eval_defs tiny_defs)
  from names_fit_Name_buffer [THEN conjunct2, THEN conjunct2, THEN mp, OF tiny]
  have "length ''k.sys'' < sizeof_Name" "length ''IoCreateDevice'' < sizeof_Name"
    by simp_all
  with r31 r32 r100 len tiny show ?thesis by (simp add: sizeof_Name_def)
qed

section \<open>Addresses that no section holds\<close>

lemma read_hint_NotMapped:
  "SectionRvaFileOffset FileHeader Sections AddressOfData = Some 0 \<Longrightarrow>
   2 \<le> length (content f) \<Longrightarrow>
   read_hint f Path FileHeader Sections AddressOfData =
     Inr (le_word (take 2 (content f)), f\<lparr>pos := 2\<rparr>)"
  by (simp add: read_hint_def fseek_def fread_def)

lemma ReadMagicNumber_InrD:
  "ReadMagicNumber f Path = Inr (DosHeader, f1) \<Longrightarrow>
   pos f + 2 \<le> length (content f) \<and> le_word (take 2 (drop (pos f) (content f))) = MZ \<and>
   f1 = f\<lparr>pos := pos f + 2\<rparr>"
  by (auto simp: ReadMagicNumber_def fread_def split: if_splits)

text \<open>
  Claim C9, as amended. In a file that passed the magic check, a zero-valued thunk entry
  ends the walk when no section holds the address 0: the resolver then returns 0, the
  seek goes to the start of the file, the hint read there is "MZ", and the walk returns
  the names collected so far.
\<close>

theorem zero_thunk_stops_walk_when_unmapped:
  assumes magic: "ReadMagicNumber (f\<lparr>pos := 0\<rparr>) Path = Inr (DosHeader, f0)"
    and thunk: "read_thunk a f Path ThunkOffset = Inr (0, f2)"
    and sections: "unat (NumberOfSections FileHeader) = length Sections"
    and unmapped: "\<forall>j<length Sections. \<not> address_in_range (Sections ! j) 0"
  shows "SectionRvaFileOffset FileHeader Sections 0 = Some 0 \<and>
    read_hint f2 Path FileHeader Sections 0 = Inr (MZ, f\<lparr>pos := 2\<rparr>) \<and>
    walk_thunks a f Path FileHeader Sections ThunkOffset names = Inr (names, f\<lparr>pos := 2\<rparr>)"
proof -
  have resolve: "SectionRvaFileOffset FileHeader Sections 0 = Some 0"
    using sections unmapped
    by (simp add: SectionRvaFileOffset_def section_scan_none address_in_range_0)
  from magic have len: "2 \<le> length (content f)" and mz: "le_word (take 2 (content f)) = MZ"
    by (auto dest!: ReadMagicNumber_InrD)
  from thunk have c2: "content f2 = content f" by (auto dest!: read_thunk_InrD)
  have "read_hint f2 Path FileHeader Sections 0 =
      Inr (le_word (take 2 (content f2)), f2\<lparr>pos := 2\<rparr>)"
    using resolve len c2 by (intro read_hint_NotMapped) simp_all
  then have hint: "read_hint f2 Path FileHeader Sections 0 = Inr (MZ, f\<lparr>pos := 2\<rparr>)"
    using mz c2 by (simp add: FILE_content_eq [OF c2])
  then have "read_entry a f Path FileHeader Sections ThunkOffset = Inr (MZ, f\<lparr>pos := 2\<rparr>)"
    using thunk by (simp add: read_entry_def)
  then have "walk_thunks a f Path FileHeader Sections ThunkOffset names =
      Inr (names, f\<lparr>pos := 2\<rparr>)"
    by (rule walk_thunks_stop)
  with resolve hint show ?thesis by simp
qed

theorem zero_thunk_stops_walk_when_unmapped_witness:
  "ReadMagicNumber \<lparr>content = tiny_sys, pos = 0\<rparr> ''k.sys'' =
     Inr (\<lparr>e_magic = MZ, e_lfanew = 0\<rparr>, \<lparr>content = tiny_sys, pos = 2\<rparr>)
   \<and> read_thunk M_I386 \<lparr>content = tiny_sys, pos = 0\<rparr> ''k.sys'' 28 =
       Inr (0, \<lparr>content = tiny_sys, pos = 32\<rparr>)
   \<and> unat (NumberOfSections tiny_FileHeader) = length tiny_Sections
   \<and> \<not> address_in_range (tiny_Sections ! 0) 0
   \<and> walk_thunks M_I386 \<lparr>content = tiny_sys, pos = 0\<rparr> ''k.sys'' tiny_FileHeader tiny_Sections
       28 [''IoCreateDevice''] = Inr ([''IoCreateDevice''], \<lparr>content = tiny_sys, pos = 2\<rparr>)"
proof -
  let ?f = "\<lparr>content = tiny_sys, pos = 0\<rparr>"
  have magic: "ReadMagicNumber (?f\<lparr>pos := 0\<rparr>) ''k.sys'' =
      Inr (\<lparr>e_magic = MZ, e_lfanew = 0\<rparr>, \<lparr>content = tiny_sys, pos = 2\<rparr>)"
    by (simp add: ReadMagicNumber_def eval_defs tiny_defs)
  have thunk: "read_thunk M_I386 ?f ''k.sys'' 28 = Inr (0, \<lparr>content = tiny_sys, pos = 32\<rparr>)"
    by (simp add: eval_defs tiny_defs)
  have sections: "unat (NumberOfSections tiny_FileHeader) = length tiny_Sections"
    by (simp add: tiny_defs)
  have unmapped: "\<forall>j<length tiny_Sections. \<not> address_in_range (tiny_Sections ! j) 0"
    by (simp add: tiny_defs address_in_range_def)
  from zero_thunk_stops_walk_when_unmapped [OF magic thunk sections unmapped,
      of "[''IoCreateDevice'']"]
  have "walk_thunks M_I386 ?f ''k.sys'' tiny_FileHeader tiny_Sections 28 [''IoCreateDevice''] =
      Inr ([''IoCreateDevice''], \<lparr>content = tiny_sys, pos = 2\<rparr>)"
    by simp
  moreover have "\<not> address_in_range (tiny_Sections ! 0) 0"
    by (simp add: tiny_defs address_in_range_def)
  ultimately show ?thesis using magic thunk sections by simp
qed

text \<open>
  The claim as stated fails where a section holds the address 0. In \<open>zero_sys\<close> the file
  starts with "MZ" and the thunk at offset 4 is zero, but the address 0 resolves to the
  file offset 16, the hint read there is 0, and the walk goes on: it appends the name
  "A" and stops one entry later.
\<close>

theorem zero_thunk_mapped_counterexample:
  "ReadMagicNumber \<lparr>content = zero_sys, pos = 0\<rparr> ''z.sys'' =
     Inr (\<lparr>e_magic = MZ, e_lfanew = 0\<rparr>, \<lparr>content = zero_sys, pos = 2\<rparr>)
   \<and> read_thunk M_I386 \<lparr>content = zero_sys, pos = 0\<rparr> ''z.sys'' 4 =
       Inr (0, \<lparr>content = zero_sys, pos = 8\<rparr>)
   \<and> SectionRvaFileOffset zero_FileHeader zero_Sections 0 = Some 16
   \<and> read_hint \<lparr>content = zero_sys, pos = 8\<rparr> ''z.sys'' zero_FileHeader zero_Sections 0 =
       Inr (0, \<lparr>content = zero_sys, pos = 18\<rparr>)
   \<and> walk_thunks M_I386 \<lparr>content = zero_sys, pos = 0\<rparr> ''z.sys'' zero_FileHeader zero_Sections
       4 [] = Inr ([''A''], \<lparr>content = zero_sys, pos = 2\<rparr>)"
  by (simp add: ReadMagicNumber_def walk_thunks.simps eval_defs zero_defs)

text \<open>
  Claim C4, as amended. The import table walker does not test an address for zero before
  it resolves it, and it seeks to the offset the resolver returns without telling "not
  mapped" from the offset 0. For a descriptor whose DLL-name address resolves to 0 the
  stored DLL name is the string at the start of the file (capped at 31 characters); for
  one whose first-thunk address resolves to 0 the thunk array is walked from the file
  offset 0; for a thunk entry whose value resolves to 0 the hint is the first two bytes
  of the file.
\<close>

theorem unmapped_addresses_read_at_offset_0:
  "(import_loop a f Path FileHeader Sections (d # ds) dlls thunks = Inr (dlls', thunks', f') \<and>
    SectionRvaFileOffset FileHeader Sections (Name d) = Some 0 \<longrightarrow>
      dlls' ! length dlls = take (sizeof_Name - 1) (c_str (content f)))
   \<and> (import_loop a f Path FileHeader Sections (d # ds) dlls thunks = Inr (dlls', thunks', f') \<and>
    SectionRvaFileOffset FileHeader Sections (FirstThunk d) = Some 0 \<longrightarrow>
      (\<exists>h. walk_thunks a f Path FileHeader Sections 0 [] = Inr (thunks' ! length thunks, h)))
   \<and> (read_thunk a f Path ThunkOffset = Inr (AddressOfData, f2) \<and>
    SectionRvaFileOffset FileHeader Sections AddressOfData = Some 0 \<and>
    2 \<le> length (content f) \<longrightarrow>
      read_entry a f Path FileHeader Sections ThunkOffset =
        Inr (le_word (take 2 (content f)), f\<lparr>pos := 2\<rparr>))"
proof (intro conjI impI)
  assume "import_loop a f Path FileHeader Sections (d # ds) dlls thunks = Inr (dlls', thunks', f') \<and>
    SectionRvaFileOffset FileHeader Sections (Name d) = Some 0"
  then have loop: "import_loop a f Path FileHeader Sections (d # ds) dlls thunks =
      Inr (dlls', thunks', f')"
    and zero: "SectionRvaFileOffset FileHeader Sections (Name d) = Some 0" by blast+
  from import_loop_InrD [OF loop] obtain nd nt where nd: "dlls' = dlls @ nd"
    "length nd = length (d # ds)"
    and each: "\<forall>i<length (d # ds). \<exists>Offset ThunkOffset g h.
         SectionRvaFileOffset FileHeader Sections (Name ((d # ds) ! i)) = Some Offset \<and>
         \<not> sint Offset < 0 \<and>
         read_Name (f\<lparr>pos := unat Offset\<rparr>) = Some (nd ! i, g) \<and>
         SectionRvaFileOffset FileHeader Sections (FirstThunk ((d # ds) ! i)) = Some ThunkOffset \<and>
         walk_thunks a f Path FileHeader Sections ThunkOffset [] = Inr (nt ! i, h)"
    by (elim exE conjE)
  from each [rule_format, of 0] zero obtain g where
    "read_Name (f\<lparr>pos := unat (0 :: DWORD)\<rparr>) = Some (nd ! 0, g)" by auto
  then have "nd ! 0 = take (sizeof_Name - 1) (c_str (content f))"
    by (auto simp: read_Name_eq split: if_splits)
  moreover have "dlls' ! length dlls = nd ! 0" using nd by (simp add: nth_append)
  ultimately show "dlls' ! length dlls = take (sizeof_Name - 1) (c_str (content f))" by simp
next
  assume "import_loop a f Path FileHeader Sections (d # ds) dlls thunks = Inr (dlls', thunks', f') \<and>
    SectionRvaFileOffset FileHeader Sections (FirstThunk d) = Some 0"
  then have loop: "import_loop a f Path FileHeader Sections (d # ds) dlls thunks =
      Inr (dlls', thunks', f')"
    and zero: "SectionRvaFileOffset FileHeader Sections (FirstThunk d) = Some 0" by blast+
  from import_loop_InrD [OF loop] obtain nd nt where nt: "thunks' = thunks @ nt"
    "length nt = length (d # ds)"
    and each: "\<forall>i<length (d # ds). \<exists>Offset ThunkOffset g h.
         SectionRvaFileOffset FileHeader Sections (Name ((d # ds) ! i)) = Some Offset \<and>
         \<not> sint Offset < 0 \<and>
         read_Name (f\<lparr>pos := unat Offset\<rparr>) = Some (nd ! i, g) \<and>
         SectionRvaFileOffset FileHeader Sections (FirstThunk ((d # ds) ! i)) = Some ThunkOffset \<and>
         walk_thunks a f Path FileHeader Sections ThunkOffset [] = Inr (nt ! i, h)"
    by (elim exE conjE)
  from each [rule_format, of 0] zero obtain h where
    "walk_thunks a f Path FileHeader Sections 0 [] = Inr (nt ! 0, h)" by auto
  moreover have "thunks' ! length thunks = nt ! 0" using nt by (simp add: nth_append)
  ultimately show "\<exists>h. walk_thunks a f Path FileHeader Sections 0 [] =
      Inr (thunks' ! length thunks, h)" by auto
next
  assume "read_thunk a f Path ThunkOffset = Inr (AddressOfData, f2) \<and>
    SectionRvaFileOffset FileHeader Sections AddressOfData = Some 0 \<and>
    2 \<le> length (content f)"
  then have thunk: "read_thunk a f Path ThunkOffset = Inr (AddressOfData, f2)"
    and zero: "SectionRvaFileOffset FileHeader Sections AddressOfData = Some 0"
    and len: "2 \<le> length (content f)" by blast+
  from thunk have c2: "content f2 = content f" by (auto dest!: read_thunk_InrD)
  have "read_hint f2 Path FileHeader Sections AddressOfData =
      Inr (le_word (take 2 (content f2)), f2\<lparr>pos := 2\<rparr>)"
    using zero len c2 by (intro read_hint_NotMapped) simp_all
  then show "read_entry a f Path FileHeader Sections ThunkOffset =
      Inr (le_word (take 2 (content f)), f\<lparr>pos := 2\<rparr>)"
    using thunk c2 by (simp add: read_entry_def FILE_content_eq [OF c2])
qed

theorem unmapped_addresses_read_at_offset_0_witness:
  "import_loop M_I386 \<lparr>content = tiny_sys, pos = 0\<rparr> ''k.sys'' tiny_FileHeader tiny_Sections
     [\<lparr>Name = 0, FirstThunk = 0\<rparr>] [] [] = Inr ([''MZ''], [[]], \<lparr>content = tiny_sys, pos = 2\<rparr>)
   \<and> SectionRvaFileOffset tiny_FileHeader tiny_Sections 0 = Some 0
   \<and> [''MZ''] ! length ([] :: string list) = take (sizeof_Name - 1) (c_str tiny_sys)
   \<and> (\<exists>h. walk_thunks M_I386 \<lparr>content = tiny_sys, pos = 0\<rparr> ''k.sys'' tiny_FileHeader
          tiny_Sections 0 [] = Inr ([[]] ! length ([] :: string list list), h))
   \<and> read_thunk M_I386 \<lparr>content = tiny_sys, pos = 0\<rparr> ''k.sys'' 28 =
       Inr (0, \<lparr>content = tiny_sys, pos = 32\<rparr>)
   \<and> read_entry M_I386 \<lparr>content = tiny_sys, pos = 0\<rparr> ''k.sys'' tiny_FileHeader tiny_Sections 28
       = Inr (le_word (take 2 tiny_sys), \<lparr>content = tiny_sys, pos = 2\<rparr>)"
proof -
  let ?f = "\<lparr>content = tiny_sys, pos = 0\<rparr>"
  let ?d = "\<lparr>Name = 0, FirstThunk = 0\<rparr>"
  have loop: "import_loop M_I386 ?f ''k.sys'' tiny_FileHeader tiny_Sections [?d] [] [] =
      Inr ([''MZ''], [[]], \<lparr>content = tiny_sys, pos = 2\<rparr>)"
    by (simp add: walk_thunks.simps eval_defs tiny_defs)
  have zero: "SectionRvaFileOffset tiny_FileHeader tiny_Sections 0 = Some 0"
    by (simp add: eval_defs tiny_defs)
  have thunk: "read_thunk M_I386 ?f ''k.sys'' 28 = Inr (0, \<lparr>content = tiny_sys, pos = 32\<rparr>)"
    by (simp add: eval_defs tiny_defs)
  have len: "2 \<le> length (content ?f)" by (simp add: tiny_defs)
  note inst = unmapped_addresses_read_at_offset_0 [of M_I386 ?f "''k.sys''" tiny_FileHeader
      tiny_Sections ?d "[]" "[]" "[]" "[''MZ'']" "[[]]" "\<lparr>content = tiny_sys, pos = 2\<rparr>" 28 0
      "\<lparr>content = tiny_sys, pos = 32\<rparr>"]
  from inst [THEN conjunct1] loop zero
  have dll: "[''MZ''] ! length ([] :: string list) = take (sizeof_Name - 1) (c_str tiny_sys)"
    by simp
  from inst [THEN conjunct2, THEN conjunct1] loop zero
  have walk: "\<exists>h. walk_thunks M_I386 ?f ''k.sys'' tiny_FileHeader tiny_Sections 0 [] =
      Inr ([[]] ! length ([] :: string list list), h)"
    by simp
  from inst [THEN conjunct2, THEN conjunct2] thunk zero len
  have entry: "read_entry M_I386 ?f ''k.sys'' tiny_FileHeader tiny_Sections 28 =
      Inr (le_word (take 2 tiny_sys), \<lparr>content = tiny_sys, pos = 2\<rparr>)"
    by simp
  from loop zero dll walk thunk entry show ?thesis by blast
qed

text \<open>
  The claim as stated fails: nothing is checked before the resolver is called. In
  \<open>tiny_sys\<close>, for a descriptor whose name and first-thunk addresses are both zero, the
  resolver is given 0, returns 0, and the walker seeks there: the DLL name it stores is
  "MZ", read at the start of the file. For the zero thunk entry at offset 28 the hint
  is read at the file offset 0 as well.
\<close>

theorem zero_addresses_resolved_counterexample:
  "SectionRvaFileOffset tiny_FileHeader tiny_Sections 0 = Some 0
   \<and> import_loop M_I386 \<lparr>content = tiny_sys, pos = 0\<rparr> ''k.sys'' tiny_FileHeader tiny_Sections
       [\<lparr>Name = 0, FirstThunk = 0\<rparr>] [] [] = Inr ([''MZ''], [[]], \<lparr>content = tiny_sys, pos = 2\<rparr>)
   \<and> read_thunk M_I386 \<lparr>content = tiny_sys, pos = 0\<rparr> ''k.sys'' 28 =
       Inr (0, \<lparr>content = tiny_sys, pos = 32\<rparr>)
   \<and> read_hint \<lparr>content = tiny_sys, pos = 32\<rparr> ''k.sys'' tiny_FileHeader tiny_Sections 0 =
       Inr (MZ, \<lparr>content = tiny_sys, pos = 2\<rparr>)"
  by (simp add: walk_thunks.simps eval_defs tiny_defs)

section \<open>Names close to the end of the file\<close>

lemma read_Name_None_iff: "read_Name f = None \<longleftrightarrow> length (content f) < pos f + sizeof_Name"
  by (auto simp: read_Name_eq)

lemma import_loop_short_name:
  assumes off: "SectionRvaFileOffset FileHeader Sections (Name d) = Some Offset"
    and short: "length (content f) < unat Offset + sizeof_Name"
  shows "\<exists>rc msg. import_loop a f Path FileHeader Sections (d # ds) dlls thunks =
           Inl (Return rc [Diagnostic Path msg]) \<and> rc \<in> {3, 4}"
proof (cases "sint Offset < 0")
  case True
  then show ?thesis using off by (simp add: fseek_def)
next
  case False
  then have "fseek f Offset = Some (f\<lparr>pos := unat Offset\<rparr>)" by (simp add: fseek_def)
  moreover have "read_Name (f\<lparr>pos := unat Offset\<rparr>) = None"
    using short by (simp add: read_Name_None_iff)
  ultimately show ?thesis using off by simp
qed

lemma walk_thunks_short_name:
  assumes thunk: "read_thunk a f Path ThunkOffset = Inr (AddressOfData, f2)"
    and off: "SectionRvaFileOffset FileHeader Sections AddressOfData = Some Offset"
    and hint: "hint_at a f Path FileHeader Sections ThunkOffset \<noteq> Some MZ"
    and short: "length (content f) < unat Offset + 2 + sizeof_Name"
  shows "\<exists>rc msg. walk_thunks a f Path FileHeader Sections ThunkOffset names =
           Inl (Return rc [Diagnostic Path msg]) \<and> rc \<in> {7, 8, 9}"
proof (cases "read_hint f2 Path FileHeader Sections AddressOfData")
  case (Inl e)
  then have "e = Return 7 [Diagnostic Path ''Thunk name not found''] \<or>
      e = Return 8 [Diagnostic Path ''File too small to read thunk hint from thunk name'']"
    using off by (auto simp: read_hint_def split: option.splits)
  moreover have "walk_thunks a f Path FileHeader Sections ThunkOffset names = Inl e"
    using thunk Inl by (subst walk_thunks_entry) (simp add: read_entry_def)
  ultimately show ?thesis by auto
next
  case (Inr y)
  obtain Hint f4 where y: "y = (Hint, f4)" by (cases y)
  from Inr y thunk have entry: "read_entry a f Path FileHeader Sections ThunkOffset = Inr (Hint, f4)"
    by (simp add: read_entry_def)
  with hint have nomz: "Hint \<noteq> MZ" by (simp add: hint_at_def)
  from Inr y off have f4: "f4 = f2\<lparr>pos := unat Offset + 2\<rparr>"
    by (auto dest!: read_hint_InrD)
  from thunk have "content f2 = content f" by (auto dest!: read_thunk_InrD)
  with f4 short have "read_Name f4 = None" by (simp add: read_Name_None_iff)
  then have "walk_thunks a f Path FileHeader Sections ThunkOffset names =
      Inl (Return 9 [Diagnostic Path ''File too small to read thunk name from thunk''])"
    using entry nomz by (subst walk_thunks_entry) simp
  then show ?thesis by simp
qed

lemma ReadImportDescriptors_names_available:
  assumes "ReadImportDescriptors a f Path FileHeader OptionalHeader Sections =
             Inr (ds, dlls, thunks, f')"
  shows "(\<forall>i<length ds. \<exists>Offset.
            SectionRvaFileOffset FileHeader Sections (Name (ds ! i)) = Some Offset \<and>
            unat Offset + sizeof_Name \<le> length (content f)) \<and>
         (\<forall>i<length ds. \<exists>ThunkOffset.
            SectionRvaFileOffset FileHeader Sections (FirstThunk (ds ! i)) = Some ThunkOffset \<and>
            (\<forall>j<length (thunks ! i). \<exists>AddressOfData f2 Offset.
               read_thunk a f Path (thunk_offset a ThunkOffset j) = Inr (AddressOfData, f2) \<and>
               SectionRvaFileOffset FileHeader Sections AddressOfData = Some Offset \<and>
               unat Offset + 2 + sizeof_Name \<le> length (content f)))"
proof -
  from ReadImportDescriptors_InrD [OF assms]
  have each: "\<forall>i<length ds. \<exists>Offset ThunkOffset g h.
         SectionRvaFileOffset FileHeader Sections (Name (ds ! i)) = Some Offset \<and>
         \<not> sint Offset < 0 \<and>
         read_Name (f\<lparr>pos := unat Offset\<rparr>) = Some (dlls ! i, g) \<and>
         SectionRvaFileOffset FileHeader Sections (FirstThunk (ds ! i)) = Some ThunkOffset \<and>
         walk_thunks a f Path FileHeader Sections ThunkOffset [] = Inr (thunks ! i, h)"
    by simp
  have dll: "\<exists>Offset. SectionRvaFileOffset FileHeader Sections (Name (ds ! i)) = Some Offset \<and>
      unat Offset + sizeof_Name \<le> length (content f)" if "i < length ds" for i
  proof -
    from each that obtain Offset g where
      "SectionRvaFileOffset FileHeader Sections (Name (ds ! i)) = Some Offset"
      "read_Name (f\<lparr>pos := unat Offset\<rparr>) = Some (dlls ! i, g)"
      by blast
    then show ?thesis by (auto dest!: read_Name_SomeD)
  qed
  have sym: "\<exists>ThunkOffset.
      SectionRvaFileOffset FileHeader Sections (FirstThunk (ds ! i)) = Some ThunkOffset \<and>
      (\<forall>j<length (thunks ! i). \<exists>AddressOfData f2 Offset.
         read_thunk a f Path (thunk_offset a ThunkOffset j) = Inr (AddressOfData, f2) \<and>
         SectionRvaFileOffset FileHeader Sections AddressOfData = Some Offset \<and>
         unat Offset + 2 + sizeof_Name \<le> length (content f))" if "i < length ds" for i
  proof -
    from each that obtain ThunkOffset h where
      first: "SectionRvaFileOffset FileHeader Sections (FirstThunk (ds ! i)) = Some ThunkOffset"
      and walk: "walk_thunks a f Path FileHeader Sections ThunkOffset [] = Inr (thunks ! i, h)"
      by blast
    from walk_thunks_InrD [OF walk] obtain new where new: "thunks ! i = [] @ new"
      and names: "\<forall>j<length new.
        entry_name a f Path FileHeader Sections (thunk_offset a ThunkOffset j) = Some (new ! j)"
      by (elim exE conjE)
    have "\<exists>AddressOfData f2 Offset.
         read_thunk a f Path (thunk_offset a ThunkOffset j) = Inr (AddressOfData, f2) \<and>
         SectionRvaFileOffset FileHeader Sections AddressOfData = Some Offset \<and>
         unat Offset + 2 + sizeof_Name \<le> length (content f)" if "j < length (thunks ! i)" for j
    proof -
      from that new names
      have "entry_name a f Path FileHeader Sections (thunk_offset a ThunkOffset j) =
          Some (new ! j)" by simp
      then obtain Hint f4 f5 where
        entry: "read_entry a f Path FileHeader Sections (thunk_offset a ThunkOffset j) =
          Inr (Hint, f4)" and name: "read_Name f4 = Some (new ! j, f5)"
        by (blast dest: entry_name_SomeD)
      from entry obtain AddressOfData f2 where
        thunk: "read_thunk a f Path (thunk_offset a ThunkOffset j) = Inr (AddressOfData, f2)"
        and hint: "read_hint f2 Path FileHeader Sections AddressOfData = Inr (Hint, f4)"
        by (blast dest: read_entry_InrD)
      from hint obtain Offset where
        off: "SectionRvaFileOffset FileHeader Sections AddressOfData = Some Offset"
        and f4: "f4 = f2\<lparr>pos := unat Offset + 2\<rparr>"
        by (blast dest: read_hint_InrD)
      from thunk have "content f2 = content f" by (auto dest!: read_thunk_InrD)
      with name f4 have "unat Offset + 2 + sizeof_Name \<le> length (content f)"
        by (auto dest!: read_Name_SomeD)
      with thunk off show ?thesis by blast
    qed
    with first show ?thesis by blast
  qed
  from dll sym show ?thesis by blast
qed

text \<open>
  Claim C10. A DLL name is read as 32 bytes at the offset its address resolves to, and a
  symbol name as the 32 bytes that follow the 2-byte hint at the offset the thunk value
  resolves to. When fewer bytes are left, \<^verbatim>\<open>ReadImportDescriptors\<close> returns an error,
  whatever the bytes are; a file it accepts had the 32 bytes at every name it read.
\<close>

theorem short_name_read_rejects_file:
  "(SectionRvaFileOffset FileHeader Sections (Name d) = Some Offset \<and>
      length (content f) < unat Offset + sizeof_Name \<longrightarrow>
    (\<exists>rc msg. import_loop a f Path FileHeader Sections (d # ds) dlls thunks =
       Inl (Return rc [Diagnostic Path msg]) \<and> rc \<in> {3, 4}))
   \<and> (read_thunk a f Path ThunkOffset = Inr (AddressOfData, f2) \<and>
      SectionRvaFileOffset FileHeader Sections AddressOfData = Some Offset' \<and>
      hint_at a f Path FileHeader Sections ThunkOffset \<noteq> Some MZ \<and>
      length (content f) < unat Offset' + 2 + sizeof_Name \<longrightarrow>
    (\<exists>rc msg. walk_thunks a f Path FileHeader Sections ThunkOffset names =
       Inl (Return rc [Diagnostic Path msg]) \<and> rc \<in> {7, 8, 9}))
   \<and> (ReadImportDescriptors a f Path FileHeader OptionalHeader Sections =
        Inr (ImportDescriptors, ImportDllNames, ImportThunkNames, f') \<longrightarrow>
      (\<forall>i<length ImportDescriptors. \<exists>Offset.
         SectionRvaFileOffset FileHeader Sections (Name (ImportDescriptors ! i)) = Some Offset \<and>
         unat Offset + sizeof_Name \<le> length (content f)) \<and>
      (\<forall>i<length ImportDescriptors. \<exists>ThunkOffset.
         SectionRvaFileOffset FileHeader Sections (FirstThunk (ImportDescriptors ! i))
           = Some ThunkOffset \<and>
         (\<forall>j<length (ImportThunkNames ! i). \<exists>AddressOfData f2 Offset.
            read_thunk a f Path (thunk_offset a ThunkOffset j) = Inr (AddressOfData, f2) \<and>
            SectionRvaFileOffset FileHeader Sections AddressOfData = Some Offset \<and>
            unat Offset + 2 + sizeof_Name \<le> length (content f))))"
proof (intro conjI impI)
  assume "SectionRvaFileOffset FileHeader Sections (Name d) = Some Offset \<and>
      length (content f) < unat Offset + sizeof_Name"
  then show "\<exists>rc msg. import_loop a f Path FileHeader Sections (d # ds) dlls thunks =
       Inl (Return rc [Diagnostic Path msg]) \<and> rc \<in> {3, 4}"
    by (blast intro: import_loop_short_name)
next
  assume "read_thunk a f Path ThunkOffset = Inr (AddressOfData, f2) \<and>
      SectionRvaFileOffset FileHeader Sections AddressOfData = Some Offset' \<and>
      hint_at a f Path FileHeader Sections ThunkOffset \<noteq> Some MZ \<and>
      length (content f) < unat Offset' + 2 + sizeof_Name"
  then show "\<exists>rc msg. walk_thunks a f Path FileHeader Sections ThunkOffset names =
       Inl (Return rc [Diagnostic Path msg]) \<and> rc \<in> {7, 8, 9}"
    by (blast intro: walk_thunks_short_name)
next
  assume ok: "ReadImportDescriptors a f Path FileHeader OptionalHeader Sections =
        Inr (ImportDescriptors, ImportDllNames, ImportThunkNames, f')"
  from ReadImportDescriptors_names_available [OF ok, THEN conjunct1]
  show "\<forall>i<length ImportDescriptors. \<exists>Offset.
         SectionRvaFileOffset FileHeader Sections (Name (ImportDescriptors ! i)) = Some Offset \<and>
         unat Offset + sizeof_Name \<le> length (content f)" .
  from ReadImportDescriptors_names_available [OF ok, THEN conjunct2]
  show "\<forall>i<length ImportDescriptors. \<exists>ThunkOffset.
         SectionRvaFileOffset FileHeader Sections (FirstThunk (ImportDescriptors ! i))
           = Some ThunkOffset \<and>
         (\<forall>j<length (ImportThunkNames ! i). \<exists>AddressOfData f2 Offset.
            read_thunk a f Path (thunk_offset a ThunkOffset j) = Inr (AddressOfData, f2) \<and>
            SectionRvaFileOffset FileHeader Sections AddressOfData = Some Offset \<and>
            unat Offset + 2 + sizeof_Name \<le> length (content f))" .
qed

theorem short_name_read_rejects_file_witness:
  "c_str (drop 32 (take 60 tiny_sys)) = ''k.sys''
   \<and> (\<exists>rc msg. import_loop M_I386 \<lparr>content = take 60 tiny_sys, pos = 0\<rparr> ''k.sys''
          tiny_FileHeader tiny_Sections [\<lparr>Name = 0x1020, FirstThunk = 0x1018\<rparr>] [] [] =
        Inl (Return rc [Diagnostic ''k.sys'' msg]) \<and> rc \<in> {3, 4})
   \<and> c_str (drop 42 (take 70 tiny_sys)) = ''IoCreateDevice''
   \<and> (\<exists>rc msg. walk_thunks M_I386 \<lparr>content = take 70 tiny_sys, pos = 0\<rparr> ''k.sys''
          tiny_FileHeader tiny_Sections 24 [] =
        Inl (Return rc [Diagnostic ''k.sys'' msg]) \<and> rc \<in> {7, 8, 9})
   \<and> (\<exists>Offset. SectionRvaFileOffset tiny_FileHeader tiny_Sections 0x1020 = Some Offset \<and>
         unat Offset + sizeof_Name \<le> length tiny_sys)
   \<and> (\<exists>AddressOfData f2 Offset.
         read_thunk M_I386 \<lparr>content = tiny_sys, pos = 0\<rparr> ''k.sys'' 24 = Inr (AddressOfData, f2) \<and>
         SectionRvaFileOffset tiny_FileHeader tiny_Sections AddressOfData = Some Offset \<and>
         unat Offset + 2 + sizeof_Name \<le> length tiny_sys)"
proof -
  let ?d = "\<lparr>Name = 0x1020, FirstThunk = 0x1018\<rparr>"
  let ?f60 = "\<lparr>content = take 60 tiny_sys, pos = 0\<rparr>"
  let ?f70 = "\<lparr>content = take 70 tiny_sys, pos = 0\<rparr>"
  let ?f = "\<lparr>content = tiny_sys, pos = 0\<rparr>"
  have n60: "c_str (drop 32 (take 60 tiny_sys)) = ''k.sys''"
    by (simp add: c_str_def NUL_def tiny_defs)
  have n70: "c_str (drop 42 (take 70 tiny_sys)) = ''IoCreateDevice''"
    by (simp add: c_str_def NUL_def tiny_defs)
  have off60: "SectionRvaFileOffset tiny_FileHeader tiny_Sections (Name ?d) = Some 32"
    by (simp add: eval_defs tiny_defs)
  have short60: "length (content ?f60) < unat (32 :: DWORD) + sizeof_Name"
    by (simp add: tiny_defs sizeof_Name_def)
  from short_name_read_rejects_file [where FileHeader = tiny_FileHeader
      and Sections = tiny_Sections and d = ?d and Offset = 32 and f = ?f60 and a = M_I386
      and Path = "''k.sys''" and ds = "[]" and dlls = "[]" and thunks = "[]",
      THEN conjunct1] off60 short60
  have dll: "\<exists>rc msg. import_loop M_I386 ?f60 ''k.sys'' tiny_FileHeader tiny_Sections [?d] [] [] =
        Inl (Return rc [Diagnostic ''k.sys'' msg]) \<and> rc \<in> {3, 4}"
    by blast
  have thunk70: "read_thunk M_I386 ?f70 ''k.sys'' 24 =
      Inr (0x1028, \<lparr>content = take 70 tiny_sys, pos = 28\<rparr>)"
    by (simp add: eval_defs tiny_defs)
  have off70: "SectionRvaFileOffset tiny_FileHeader tiny_Sections 0x1028 = Some 40"
    by (simp add: eval_defs tiny_defs)
  have hint70: "hint_at M_I386 ?f70 ''k.sys'' tiny_FileHeader tiny_Sections 24 \<noteq> Some MZ"
    by (simp add: eval_defs tiny_defs)
  have short70: "length (content ?f70) < unat (40 :: DWORD) + 2 + sizeof_Name"
    by (simp add: tiny_defs sizeof_Name_def)
  from short_name_read_rejects_file [where FileHeader = tiny_FileHeader
      and Sections = tiny_Sections and f = ?f70 and a = M_I386 and Path = "''k.sys''"
      and ThunkOffset = 24 and AddressOfData = "0x1028"
      and ?f2.0 = "\<lparr>content = take 70 tiny_sys, pos = 28\<rparr>" and Offset' = 40
      and names = "[]", THEN conjunct2, THEN conjunct1] thunk70 off70 hint70 short70
  have sym: "\<exists>rc msg. walk_thunks M_I386 ?f70 ''k.sys'' tiny_FileHeader tiny_Sections 24 [] =
        Inl (Return rc [Diagnostic ''k.sys'' msg]) \<and> rc \<in> {7, 8, 9}"
    by blast
  have tiny: "ReadImportDescriptors M_I386 ?f ''k.sys''
        tiny_FileHeader tiny_OptionalHeader tiny_Sections =
       Inr ([?d], [''k.sys''], [[''IoCreateDevice'']], \<lparr>content = tiny_sys, pos = 2\<rparr>)"
    by (simp add: ReadImportDescriptors_def walk_thunks.simps eval_defs tiny_defs)
  note ok = short_name_read_rejects_file [THEN conjunct2, THEN conjunct2, THEN mp, OF tiny]
  from ok [THEN conjunct1, rule_format, of 0]
  have a: "\<exists>Offset. SectionRvaFileOffset tiny_FileHeader tiny_Sections 0x1020 = Some Offset \<and>
         unat Offset + sizeof_Name \<le> length tiny_sys"
    by simp
  from ok [THEN conjunct2, rule_format, of 0] obtain ThunkOffset where
    first: "SectionRvaFileOffset tiny_FileHeader tiny_Sections 0x1018 = Some ThunkOffset" and
    each: "\<forall>j<length ([[''IoCreateDevice'']] ! 0). \<exists>AddressOfData f2 Offset.
            read_thunk M_I386 ?f ''k.sys'' (thunk_offset M_I386 ThunkOffset j) =
              Inr (AddressOfData, f2) \<and>
            SectionRvaFileOffset tiny_FileHeader tiny_Sections AddressOfData = Some Offset \<and>
            unat Offset + 2 + sizeof_Name \<le> length (content ?f)"
    by auto
  from first have "ThunkOffset = 24" by (simp add: eval_defs tiny_defs)
  with each [rule_format, of 0]
  have b: "\<exists>AddressOfData f2 Offset.
         read_thunk M_I386 ?f ''k.sys'' 24 = Inr (AddressOfData, f2) \<and>
         SectionRvaFileOffset tiny_FileHeader tiny_Sections AddressOfData = Some Offset \<and>
         unat Offset + 2 + sizeof_Name \<le> length tiny_sys"
    by simp
  from n60 dll n70 sym a b show ?thesis by blast
qed

section \<open>The scanner\<close>

subsection \<open>Failures of the reading steps\<close>

lemma ReadSections_loop_InrD:
  "ReadSections_loop f Path i k Sections = Inr (Sections', f') \<Longrightarrow>
   length Sections' = length Sections + k"
proof (induction k arbitrary: f i Sections)
  case 0
  then show ?case by simp
next
  case (Suc k)
  then show ?case by (auto split: option.splits)
qed

lemma ReadSections_loop_InlD:
  "ReadSections_loop f Path i k Sections = Inl e \<Longrightarrow> \<exists>j. e = Return 1 [CorruptedSection Path j]"
proof (induction k arbitrary: f i Sections)
  case 0
  then show ?case by simp
next
  case (Suc k)
  then show ?case by (auto split: option.splits)
qed

lemma ReadSections_InrD:
  "ReadSections f Path FileHeader = Inr (Sections, f') \<Longrightarrow>
   unat (NumberOfSections FileHeader) = length Sections"
  by (auto simp: ReadSections_def dest: ReadSections_loop_InrD)

lemma SectionRvaFileOffset_defined:
  "unat (NumberOfSections FileHeader) \<le> length Sections \<Longrightarrow>
   \<exists>Offset. SectionRvaFileOffset FileHeader Sections Rva = Some Offset"
  by (simp add: SectionRvaFileOffset_def section_scan_defined)

lemma read_thunk_InlD:
  "read_thunk a f Path off = Inl e \<Longrightarrow> \<exists>rc msg. e = Return rc [Diagnostic Path msg] \<and> rc \<noteq> 0"
  by (auto simp: read_thunk_def split: option.splits)

lemma read_hint_InlD:
  assumes "unat (NumberOfSections FileHeader) \<le> length Sections"
    and "read_hint f Path FileHeader Sections AddressOfData = Inl e"
  shows "\<exists>rc msg. e = Return rc [Diagnostic Path msg] \<and> rc \<noteq> 0"
proof -
  from SectionRvaFileOffset_defined [OF assms(1)] obtain Offset where
    "SectionRvaFileOffset FileHeader Sections AddressOfData = Some Offset" by blast
  with assms(2) show ?thesis by (auto simp: read_hint_def split: option.splits)
qed

lemma read_entry_InlD:
  assumes "unat (NumberOfSections FileHeader) \<le> length Sections"
    and "read_entry a f Path FileHeader Sections off = Inl e"
  shows "\<exists>rc msg. e = Return rc [Diagnostic Path msg] \<and> rc \<noteq> 0"
proof (cases "read_thunk a f Path off")
  case (Inl e')
  with assms(2) have "e = e'" by (simp add: read_entry_def)
  with Inl show ?thesis by (auto dest: read_thunk_InlD)
next
  case (Inr r)
  obtain AddressOfData f2 where "r = (AddressOfData, f2)" by (cases r)
  with Inr assms(2) have "read_hint f2 Path FileHeader Sections AddressOfData = Inl e"
    by (simp add: read_entry_def)
  with assms(1) show ?thesis by (rule read_hint_InlD)
qed

lemma walk_thunks_InlD:
  "unat (NumberOfSections FileHeader) \<le> length Sections \<Longrightarrow>
   walk_thunks a f Path FileHeader Sections off names = Inl e \<Longrightarrow>
   \<exists>rc msg. e = Return rc [Diagnostic Path msg] \<and> rc \<noteq> 0"
proof (induction a f Path FileHeader Sections off names rule: walk_thunks.induct)
  case (1 a f Path FileHeader Sections off names)
  note sections = "1.prems"(1) and fail = "1.prems"(2)
  show ?case
  proof (cases "read_entry a f Path FileHeader Sections off")
    case (Inl e')
    with fail have "read_entry a f Path FileHeader Sections off = Inl e"
      by (subst (asm) walk_thunks_entry) simp
    with sections show ?thesis by (rule read_entry_InlD)
  next
    case (Inr y)
    obtain Hint f4 where y: "y = (Hint, f4)" by (cases y)
    note entry = Inr [unfolded y]
    show ?thesis
    proof (cases "Hint = MZ")
      case True
      with entry fail show ?thesis by (simp add: walk_thunks_stop)
    next
      case False
      show ?thesis
      proof (cases "read_Name f4")
        case None
        with entry False fail have
          "e = Return 9 [Diagnostic Path ''File too small to read thunk name from thunk'']"
          by (subst (asm) walk_thunks_entry) simp
        then show ?thesis by simp
      next
        case (Some z)
        obtain nm f5 where z: "z = (nm, f5)" by (cases z)
        note name = Some [unfolded z]
        from entry obtain AddressOfData f2 where
          thunk: "read_thunk a f Path off = Inr (AddressOfData, f2)" and
          hint: "read_hint f2 Path FileHeader Sections AddressOfData = Inr (Hint, f4)"
          by (auto dest: read_entry_InrD)
        have c5: "content f5 = content f"
          using entry name by (auto dest!: read_entry_content_result read_Name_SomeD)
        have "walk_thunks a f Path FileHeader Sections off names =
            walk_thunks a f Path FileHeader Sections (thunk_offset a off (Suc 0)) (names @ [nm])"
          using entry False name by (rule walk_thunks_next)
        also have "\<dots> = walk_thunks a f5 Path FileHeader Sections
            (thunk_offset a off (Suc 0)) (names @ [nm])"
          by (rule walk_thunks_content [OF c5 [symmetric]])
        finally have "walk_thunks a f5 Path FileHeader Sections
                (off + of_nat (sizeof_IMAGE_THUNK_DATA a)) (names @ [nm]) = Inl e"
          using fail by (simp add: thunk_offset_def)
        from "1.IH" [OF thunk refl hint refl False name refl sections this] show ?thesis .
      qed
    qed
  qed
qed

lemma import_loop_InlD:
  assumes "unat (NumberOfSections FileHeader) \<le> length Sections"
  shows "import_loop a f Path FileHeader Sections ds dlls thunks = Inl e \<Longrightarrow>
    \<exists>rc msg. e = Return rc [Diagnostic Path msg] \<and> rc \<noteq> 0"
proof (induction ds arbitrary: f dlls thunks)
  case Nil
  then show ?case by simp
next
  case (Cons d ds)
  from SectionRvaFileOffset_defined [OF assms] obtain Offset ThunkOffset where
    off: "SectionRvaFileOffset FileHeader Sections (Name d) = Some Offset"
    "SectionRvaFileOffset FileHeader Sections (FirstThunk d) = Some ThunkOffset"
    by blast
  show ?case
  proof (cases "fseek f Offset")
    case None
    with Cons.prems off show ?thesis by auto
  next
    case (Some f1)
    show ?thesis
    proof (cases "read_Name f1")
      case None
      with Cons.prems off Some show ?thesis by auto
    next
      case name: (Some z)
      obtain nm f2 where z: "z = (nm, f2)" by (cases z)
      show ?thesis
      proof (cases "walk_thunks a f2 Path FileHeader Sections ThunkOffset []")
        case (Inl e')
        with Cons.prems off Some name z
        have "walk_thunks a f2 Path FileHeader Sections ThunkOffset [] = Inl e" by simp
        with assms show ?thesis by (rule walk_thunks_InlD)
      next
        case (Inr w)
        obtain names f3 where w: "w = (names, f3)" by (cases w)
        from Cons.prems off Some name z Inr w
        have "import_loop a f3 Path FileHeader Sections ds (dlls @ [nm]) (thunks @ [names]) = Inl e"
          by simp
        then show ?thesis by (rule Cons.IH)
      qed
    qed
  qed
qed

lemma read_descriptors_InlD:
  "read_descriptors f Path k ds = Inl e \<Longrightarrow>
   e = Return 2 [Diagnostic Path ''File too small to read import descriptor'']"
proof (induction k arbitrary: f ds)
  case 0
  then show ?case by simp
next
  case (Suc k)
  then show ?case by (auto split: option.splits)
qed

lemma ReadImportDescriptors_InlD:
  assumes sections: "unat (NumberOfSections FileHeader) \<le> length Sections"
    and fail: "ReadImportDescriptors a f Path FileHeader OptionalHeader Sections = Inl e"
  shows "\<exists>rc msg. e = Return rc [Diagnostic Path msg] \<and> rc \<noteq> 0"
proof -
  from SectionRvaFileOffset_defined [OF sections] obtain Offset where
    off: "SectionRvaFileOffset FileHeader Sections
            (dd_VirtualAddress (ImportDirectory OptionalHeader)) = Some Offset"
    by blast
  show ?thesis
  proof (cases "fseek f Offset")
    case None
    with fail off show ?thesis by (auto simp: ReadImportDescriptors_def)
  next
    case (Some f1)
    show ?thesis
    proof (cases "read_descriptors f1 Path (unat (NumberOfEntries OptionalHeader)) []")
      case (Inl e')
      with fail off Some have "e = e'" by (simp add: ReadImportDescriptors_def)
      with Inl have "e = Return 2 [Diagnostic Path ''File too small to read import descriptor'']"
        by (auto dest: read_descriptors_InlD)
      then show ?thesis by simp
    next
      case (Inr r)
      obtain ds f2 where r: "r = (ds, f2)" by (cases r)
      from fail off Some Inr r
      have "import_loop a f2 Path FileHeader Sections ds [] [] = Inl e"
        by (auto simp: ReadImportDescriptors_def split: sum.splits)
      with sections show ?thesis by (rule import_loop_InlD)
    qed
  qed
qed

lemma ReadMagicNumber_InlD:
  "ReadMagicNumber f Path = Inl e \<Longrightarrow> \<exists>rc msg. e = Return rc [Diagnostic Path msg] \<and> rc \<noteq> 0"
  by (auto simp: ReadMagicNumber_def split: option.splits if_splits)

lemma ReadNtHeaders_InlD:
  "ReadNtHeaders a f Path DosHeader = Inl e \<Longrightarrow>
   e = Return 5 [] \<or> (e \<noteq> Return 5 [] \<and> (\<exists>rc msg. e = Return rc [Diagnostic Path msg] \<and> rc \<noteq> 0))"
  by (auto simp: ReadNtHeaders_def split: option.splits if_splits)

text \<open>
  The silent return of the program is the outcome "unsupported architecture" of the
  specification: \<^verbatim>\<open>ReadNtHeaders\<close> returns 5 exactly on the files whose headers pass up to
  the signature and whose machine type is not the one of the build.
\<close>

lemma field_take_drop:
  "off' + k \<le> n \<Longrightarrow> field off' k (take n (drop off bs)) = field (off + off') k bs"
  by (simp add: field_def drop_take min_def add.commute)

lemma ReadNtHeaders_returns_5_iff:
  "ReadNtHeaders a \<lparr>content = bs, pos = 2\<rparr> Path DosHeader = Inl (Return 5 []) \<longleftrightarrow>
   sizeof_IMAGE_DOS_HEADER \<le> length bs \<and>
   0 \<le> sint (field 60 4 bs :: DWORD) \<and>
   unat (field 60 4 bs :: DWORD) + sizeof_IMAGE_NT_HEADERS a \<le> length bs \<and>
   (field (unat (field 60 4 bs :: DWORD)) 4 bs :: DWORD) = PE \<and>
   (field (unat (field 60 4 bs :: DWORD) + 4) 2 bs :: WORD) \<noteq> IMAGE_FILE_MACHINE a"
proof -
  let ?lf = "field 60 4 bs :: DWORD"
  let ?n = "sizeof_IMAGE_NT_HEADERS a"
  define rest where "rest = take 62 (drop 2 bs)"
  define hs where "hs = take ?n (drop (unat ?lf) bs)"
  have lf: "field 58 4 rest = ?lf"
    unfolding rest_def by (simp add: field_take_drop)
  have n: "8 \<le> ?n" by (cases a) simp_all
  have sig: "nt_Signature (decode_IMAGE_NT_HEADERS a hs) = field (unat ?lf) 4 bs"
    unfolding hs_def using n by (simp add: decode_IMAGE_NT_HEADERS_def field_take_drop)
  have mach: "Machine (nt_FileHeader (decode_IMAGE_NT_HEADERS a hs)) =
      field (unat ?lf + 4) 2 bs"
    unfolding hs_def using n by (simp add: decode_IMAGE_NT_HEADERS_def field_take_drop)
  have rd_dos: "fread \<lparr>content = bs, pos = 2\<rparr> (sizeof_IMAGE_DOS_HEADER - 2) =
      (if sizeof_IMAGE_DOS_HEADER \<le> length bs then Some (rest, \<lparr>content = bs, pos = 64\<rparr>)
       else None)"
    unfolding rest_def by (simp add: fread_def sizeof_IMAGE_DOS_HEADER_def)
  have rd_nt: "fread \<lparr>content = bs, pos = unat ?lf\<rparr> ?n =
      (if unat ?lf + ?n \<le> length bs then Some (hs, \<lparr>content = bs, pos = unat ?lf + ?n\<rparr>)
       else None)"
    unfolding hs_def by (simp add: fread_def)
  show ?thesis
    by (simp add: ReadNtHeaders_def rd_dos lf fseek_def rd_nt sig mach not_less)
qed

lemma UnsupportedArchitecture_iff_returns_5:
  "UnsupportedArchitecture a bs \<longleftrightarrow>
   ReadNtHeaders_returns_5 a \<lparr>content = bs, pos = 0\<rparr> Path"
proof -
  have rd: "fread \<lparr>content = bs, pos = 0\<rparr> 2 =
      (if 2 \<le> length bs then Some (take 2 bs, \<lparr>content = bs, pos = 2\<rparr>) else None)"
    by (simp add: fread_def)
  have magic: "le_word (take 2 bs) = (field 0 2 bs :: WORD)" by (simp add: field_def)
  have short: "\<not> sizeof_IMAGE_DOS_HEADER \<le> length bs" if "\<not> 2 \<le> length bs"
    using that by (simp add: sizeof_IMAGE_DOS_HEADER_def)
  show ?thesis
    using short
    by (simp add: UnsupportedArchitecture_def ReadNtHeaders_returns_5_def ReadMagicNumber_def
        rd magic ReadNtHeaders_returns_5_iff)
qed

lemma read_file_InlD:
  assumes "read_file a f Path = Inl err"
  shows "\<exists>rc printed. err = Return rc printed \<and> rc \<noteq> 0 \<and>
    (if ReadNtHeaders_returns_5 a f Path then printed = []
     else (\<exists>ev. printed = [ev] \<and> is_diagnostic Path ev))"
proof -
  have reported: ?thesis
    if "\<not> ReadNtHeaders_returns_5 a f Path"
      and "\<exists>rc msg. err = Return rc [Diagnostic Path msg] \<and> rc \<noteq> 0"
  proof -
    from that(2) obtain rc msg where "err = Return rc [Diagnostic Path msg]" "rc \<noteq> 0"
      by blast
    moreover have "is_diagnostic Path (Diagnostic Path msg)" by simp
    ultimately show ?thesis using that(1) by simp
  qed
  show ?thesis
  proof (cases "ReadMagicNumber f Path")
    case (Inl e)
    with assms have "err = e" by (simp add: read_file_def)
    with Inl have "ReadMagicNumber f Path = Inl err" by simp
    then have "\<exists>rc msg. err = Return rc [Diagnostic Path msg] \<and> rc \<noteq> 0"
      by (rule ReadMagicNumber_InlD)
    moreover have "\<not> ReadNtHeaders_returns_5 a f Path"
      using Inl by (simp add: ReadNtHeaders_returns_5_def)
    ultimately show ?thesis by (rule reported [rotated])
  next
    case magic: (Inr r)
    obtain DosHeader f1 where r: "r = (DosHeader, f1)" by (cases r)
    note magic = magic [unfolded r]
    show ?thesis
    proof (cases "ReadNtHeaders a f1 Path DosHeader")
      case (Inl e)
      with assms magic have e: "err = e" by (simp add: read_file_def)
      from ReadNtHeaders_InlD [OF Inl] show ?thesis
      proof
        assume "e = Return 5 []"
        moreover from this Inl magic have "ReadNtHeaders_returns_5 a f Path"
          by (simp add: ReadNtHeaders_returns_5_def)
        ultimately show ?thesis using e by simp
      next
        assume other: "e \<noteq> Return 5 [] \<and>
          (\<exists>rc msg. e = Return rc [Diagnostic Path msg] \<and> rc \<noteq> 0)"
        with Inl magic have "\<not> ReadNtHeaders_returns_5 a f Path"
          by (simp add: ReadNtHeaders_returns_5_def)
        moreover from other e
        have "\<exists>rc msg. err = Return rc [Diagnostic Path msg] \<and> rc \<noteq> 0" by simp
        ultimately show ?thesis by (rule reported)
      qed
    next
      case nt: (Inr r2)
      obtain DosHeader' NtHeaders f2 where r2: "r2 = (DosHeader', NtHeaders, f2)"
        by (cases r2)
      note nt = nt [unfolded r2]
      have supported: "\<not> ReadNtHeaders_returns_5 a f Path"
        using magic nt by (simp add: ReadNtHeaders_returns_5_def)
      show ?thesis
      proof (cases "ReadSections f2 Path (nt_FileHeader NtHeaders)")
        case (Inl e)
        with assms magic nt have "err = e" by (simp add: read_file_def)
        with Inl obtain j where "err = Return 1 [CorruptedSection Path j]"
          by (auto simp: ReadSections_def dest!: ReadSections_loop_InlD)
        moreover have "is_diagnostic Path (CorruptedSection Path j)" by simp
        ultimately show ?thesis using supported by simp
      next
        case sec: (Inr r3)
        obtain Sections f3 where r3: "r3 = (Sections, f3)" by (cases r3)
        note sec = sec [unfolded r3]
        from sec have n: "unat (NumberOfSections (nt_FileHeader NtHeaders)) \<le> length Sections"
          by (simp add: ReadSections_InrD)
        have "ReadImportDescriptors a f3 Path (nt_FileHeader NtHeaders)
                (nt_OptionalHeader NtHeaders) Sections = Inl err"
        proof (cases "ReadImportDescriptors a f3 Path (nt_FileHeader NtHeaders)
                (nt_OptionalHeader NtHeaders) Sections")
          case (Inl e)
          with assms magic nt sec show ?thesis by (simp add: read_file_def)
        next
          case (Inr r4)
          obtain ds dlls thunks f4 where "r4 = (ds, dlls, thunks, f4)" by (cases r4)
          with Inr assms magic nt sec show ?thesis by (simp add: read_file_def)
        qed
        from supported ReadImportDescriptors_InlD [OF n this] show ?thesis
          by (rule reported)
      qed
    qed
  qed
qed

lemma scan_entry_total:
  "\<exists>st'. scan_entry a pszExtension ppszImports st e = Some st'"
proof (cases "extension e \<noteq> pszExtension \<or> bytes e = None")
  case True
  then have "scan_entry a pszExtension ppszImports st e = Some st"
    by (auto simp: scan_entry_def)
  then show ?thesis by blast
next
  case False
  then obtain bs where bs: "extension e = pszExtension" "bytes e = Some bs" by auto
  show ?thesis
  proof (cases "read_file a \<lparr>content = bs, pos = 0\<rparr> (path e)")
    case (Inl err)
    from read_file_InlD [OF Inl] obtain rc printed where "err = Return rc printed" by blast
    with Inl bs have "scan_entry a pszExtension ppszImports st e =
        Some (st\<lparr>cout := cout st @ printed\<rparr>)"
      by (simp add: scan_entry_def)
    then show ?thesis by blast
  next
    case (Inr r)
    obtain ImportThunkNames f where "r = (ImportThunkNames, f)" by (cases r)
    with Inr bs have "scan_entry a pszExtension ppszImports st e =
        Some (report ppszImports st (path e) f ImportThunkNames)"
      by (simp add: scan_entry_def)
    then show ?thesis by blast
  qed
qed

lemma scan_directory_total:
  "\<exists>st'. scan_directory a pszExtension ppszImports st dir = Some st'"
proof (induction dir arbitrary: st)
  case Nil
  then show ?case by simp
next
  case (Cons e dir)
  from scan_entry_total obtain st1 where
    "scan_entry a pszExtension ppszImports st e = Some st1" by blast
  with Cons.IH [of st1] show ?case by simp
qed

text \<open>
  Claim C6. The scan of a directory always runs to its last entry. A file on which one of
  the reading steps fails (magic number, headers, signature, section table, import walk)
  is left with a nonzero return code, and the scan goes on with the remaining entries
  from the same state, apart from what the failing step printed: nothing when the file
  is of an unsupported architecture (its headers are in place up to the signature and
  its machine type is not the one of the build), exactly one diagnostic about the file
  in every other case. Every file of an unsupported architecture is such a failure, with
  return code 5.
\<close>

theorem errors_skip_one_file:
  "(\<exists>st'. scan_directory a pszExtension ppszImports st dir = Some st')
   \<and> (extension e = pszExtension \<and> bytes e = Some bs \<and>
        read_file a \<lparr>content = bs, pos = 0\<rparr> (path e) = Inl err \<longrightarrow>
      (\<exists>rc printed. err = Return rc printed \<and> rc \<noteq> 0 \<and>
         scan_directory a pszExtension ppszImports st (e # dir) =
           scan_directory a pszExtension ppszImports (st\<lparr>cout := cout st @ printed\<rparr>) dir \<and>
         (if UnsupportedArchitecture a bs then printed = []
          else (\<exists>ev. printed = [ev] \<and> is_diagnostic (path e) ev))))
   \<and> (UnsupportedArchitecture a bs \<longrightarrow>
        read_file a \<lparr>content = bs, pos = 0\<rparr> (path e) = Inl (Return 5 []))"
proof (intro conjI impI)
  show "\<exists>st'. scan_directory a pszExtension ppszImports st dir = Some st'"
    by (rule scan_directory_total)
next
  assume "extension e = pszExtension \<and> bytes e = Some bs \<and>
        read_file a \<lparr>content = bs, pos = 0\<rparr> (path e) = Inl err"
  then have e: "extension e = pszExtension" "bytes e = Some bs"
    and fail: "read_file a \<lparr>content = bs, pos = 0\<rparr> (path e) = Inl err"
    by blast+
  from read_file_InlD [OF fail] obtain rc printed where
    err: "err = Return rc printed" "rc \<noteq> 0" and
    "if ReadNtHeaders_returns_5 a \<lparr>content = bs, pos = 0\<rparr> (path e) then printed = []
      else (\<exists>ev. printed = [ev] \<and> is_diagnostic (path e) ev)"
    by blast
  then have printed: "if UnsupportedArchitecture a bs then printed = []
      else (\<exists>ev. printed = [ev] \<and> is_diagnostic (path e) ev)"
    by (simp only: UnsupportedArchitecture_iff_returns_5 [where Path = "path e"])
  from e fail err have "scan_entry a pszExtension ppszImports st e =
      Some (st\<lparr>cout := cout st @ printed\<rparr>)"
    by (simp add: scan_entry_def)
  then have "scan_directory a pszExtension ppszImports st (e # dir) =
      scan_directory a pszExtension ppszImports (st\<lparr>cout := cout st @ printed\<rparr>) dir"
    by simp
  with err printed
  show "\<exists>rc printed. err = Return rc printed \<and> rc \<noteq> 0 \<and>
         scan_directory a pszExtension ppszImports st (e # dir) =
           scan_directory a pszExtension ppszImports (st\<lparr>cout := cout st @ printed\<rparr>) dir \<and>
         (if UnsupportedArchitecture a bs then printed = []
          else (\<exists>ev. printed = [ev] \<and> is_diagnostic (path e) ev))"
    by blast
next
  assume "UnsupportedArchitecture a bs"
  then have "ReadNtHeaders_returns_5 a \<lparr>content = bs, pos = 0\<rparr> (path e)"
    by (simp only: UnsupportedArchitecture_iff_returns_5 [where Path = "path e"])
  then show "read_file a \<lparr>content = bs, pos = 0\<rparr> (path e) = Inl (Return 5 [])"
    by (auto simp: ReadNtHeaders_returns_5_def read_file_def split: sum.splits)
qed

lemmas header_defs = ReadMagicNumber_def ReadNtHeaders_def ReadSections_def
  decode_IMAGE_NT_HEADERS_def decode_IMAGE_SECTION_HEADER_def sizeof_IMAGE_DOS_HEADER_def
  sizeof_IMAGE_SECTION_HEADER_def PE_def

lemma read_file_mini_pe:
  "read_file M_I386 \<lparr>content = mini_pe, pos = 0\<rparr> Path =
     Inr ([[''IoCreateDevice'']], \<lparr>content = mini_pe, pos = 2\<rparr>)"
proof -
  have magic: "ReadMagicNumber \<lparr>content = mini_pe, pos = 0\<rparr> Path =
      Inr (\<lparr>e_magic = MZ, e_lfanew = 0\<rparr>, \<lparr>content = mini_pe, pos = 2\<rparr>)"
    by (simp add: header_defs eval_defs mini_pe_def)
  have nt: "ReadNtHeaders M_I386 \<lparr>content = mini_pe, pos = 2\<rparr> Path \<lparr>e_magic = MZ, e_lfanew = 0\<rparr> =
      Inr (\<lparr>e_magic = MZ, e_lfanew = 4\<rparr>,
           \<lparr>nt_Signature = PE,
            nt_FileHeader = \<lparr>Machine = 0x14c, NumberOfSections = 1\<rparr>,
            nt_OptionalHeader = \<lparr>Magic = 0x10b,
              ImportDirectory = \<lparr>dd_VirtualAddress = 0x1124, dd_Size = 40\<rparr>\<rparr>\<rparr>,
           \<lparr>content = mini_pe, pos = 252\<rparr>)"
    by (simp add: header_defs eval_defs mini_pe_def)
  have sec: "ReadSections \<lparr>content = mini_pe, pos = 252\<rparr> Path \<lparr>Machine = 0x14c, NumberOfSections = 1\<rparr> =
      Inr ([\<lparr>VirtualSize = 0x200, VirtualAddress = 0x1000, PointerToRawData = 0\<rparr>],
           \<lparr>content = mini_pe, pos = 292\<rparr>)"
    by (simp add: header_defs eval_defs mini_pe_def)
  have imp: "ReadImportDescriptors M_I386 \<lparr>content = mini_pe, pos = 292\<rparr> Path
      \<lparr>Machine = 0x14c, NumberOfSections = 1\<rparr>
      \<lparr>Magic = 0x10b, ImportDirectory = \<lparr>dd_VirtualAddress = 0x1124, dd_Size = 40\<rparr>\<rparr>
      [\<lparr>VirtualSize = 0x200, VirtualAddress = 0x1000, PointerToRawData = 0\<rparr>] =
      Inr ([\<lparr>Name = 0x1140, FirstThunk = 0x1138\<rparr>], [''k.sys''], [[''IoCreateDevice'']],
           \<lparr>content = mini_pe, pos = 2\<rparr>)"
    by (simp add: ReadImportDescriptors_def walk_thunks.simps eval_defs mini_pe_def)
  show ?thesis by (simp add: read_file_def magic nt sec imp)
qed

lemma read_file_mini_pe_amd64:
  "read_file M_I386 \<lparr>content = mini_pe_amd64, pos = 0\<rparr> Path = Inl (Return 5 [])"
  "UnsupportedArchitecture M_I386 mini_pe_amd64"
proof -
  have magic: "ReadMagicNumber \<lparr>content = mini_pe_amd64, pos = 0\<rparr> Path =
      Inr (\<lparr>e_magic = MZ, e_lfanew = 0\<rparr>, \<lparr>content = mini_pe_amd64, pos = 2\<rparr>)"
    by (simp add: header_defs eval_defs mini_pe_amd64_def mini_pe_def)
  have nt: "ReadNtHeaders M_I386 \<lparr>content = mini_pe_amd64, pos = 2\<rparr> Path
      \<lparr>e_magic = MZ, e_lfanew = 0\<rparr> = Inl (Return 5 [])"
    by (simp add: header_defs eval_defs mini_pe_amd64_def mini_pe_def)
  show "read_file M_I386 \<lparr>content = mini_pe_amd64, pos = 0\<rparr> Path = Inl (Return 5 [])"
    by (simp add: read_file_def magic nt)
  have "ReadNtHeaders_returns_5 M_I386 \<lparr>content = mini_pe_amd64, pos = 0\<rparr> Path"
    by (simp add: ReadNtHeaders_returns_5_def magic nt)
  then show "UnsupportedArchitecture M_I386 mini_pe_amd64"
    by (simp only: UnsupportedArchitecture_iff_returns_5 [where Path = Path])
qed

theorem errors_skip_one_file_witness:
  "read_file M_I386 \<lparr>content = ''AB'', pos = 0\<rparr> ''a.sys'' =
     Inl (Return 2 [Diagnostic ''a.sys'' ''Incorrect magic number from DOS header''])
   \<and> \<not> UnsupportedArchitecture M_I386 ''AB''
   \<and> read_file M_I386 \<lparr>content = mini_pe_amd64, pos = 0\<rparr> ''x.sys'' = Inl (Return 5 [])
   \<and> UnsupportedArchitecture M_I386 mini_pe_amd64
   \<and> scan_directory M_I386 ''.sys'' [''IoCreateDevice''] \<lparr>numResults = 0, cout = []\<rparr>
       [\<lparr>path = ''a.sys'', extension = ''.sys'', bytes = Some ''AB''\<rparr>,
        \<lparr>path = ''x.sys'', extension = ''.sys'', bytes = Some mini_pe_amd64\<rparr>,
        \<lparr>path = ''k.sys'', extension = ''.sys'', bytes = Some mini_pe\<rparr>] =
      Some \<lparr>numResults = 1,
            cout = [Diagnostic ''a.sys'' ''Incorrect magic number from DOS header'',
                    ResultLine 0 ''k.sys'' 362 1]\<rparr>"
proof -
  let ?bad = "\<lparr>path = ''a.sys'', extension = ''.sys'', bytes = Some ''AB''\<rparr>"
  let ?foreign = "\<lparr>path = ''x.sys'', extension = ''.sys'', bytes = Some mini_pe_amd64\<rparr>"
  let ?good = "\<lparr>path = ''k.sys'', extension = ''.sys'', bytes = Some mini_pe\<rparr>"
  let ?st = "\<lparr>numResults = 0, cout = []\<rparr>"
  let ?st1 = "\<lparr>numResults = 0,
    cout = [Diagnostic ''a.sys'' ''Incorrect magic number from DOS header'']\<rparr>"
  have bad: "read_file M_I386 \<lparr>content = ''AB'', pos = 0\<rparr> (path ?bad) =
      Inl (Return 2 [Diagnostic ''a.sys'' ''Incorrect magic number from DOS header''])"
    by (simp add: read_file_def header_defs eval_defs)
  have bad_arch: "\<not> UnsupportedArchitecture M_I386 ''AB''"
    by (simp add: UnsupportedArchitecture_def sizeof_IMAGE_DOS_HEADER_def)
  have foreign_arch: "UnsupportedArchitecture M_I386 mini_pe_amd64"
    by (rule read_file_mini_pe_amd64)
  have foreign: "read_file M_I386 \<lparr>content = mini_pe_amd64, pos = 0\<rparr> (path ?foreign) =
      Inl (Return 5 [])"
    by (rule errors_skip_one_file [where e = ?foreign and bs = mini_pe_amd64 and a = M_I386,
          THEN conjunct2, THEN conjunct2, THEN mp, OF foreign_arch])
  from errors_skip_one_file [where e = ?bad and bs = "''AB''" and a = M_I386
      and pszExtension = "''.sys''" and ppszImports = "[''IoCreateDevice'']" and st = ?st
      and dir = "[?foreign, ?good]"
      and err = "Return 2 [Diagnostic ''a.sys'' ''Incorrect magic number from DOS header'']",
      THEN conjunct2, THEN conjunct1] bad
  have step1: "scan_directory M_I386 ''.sys'' [''IoCreateDevice''] ?st [?bad, ?foreign, ?good] =
      scan_directory M_I386 ''.sys'' [''IoCreateDevice''] ?st1 [?foreign, ?good]"
    by auto
  from errors_skip_one_file [where e = ?foreign and bs = mini_pe_amd64 and a = M_I386
      and pszExtension = "''.sys''" and ppszImports = "[''IoCreateDevice'']" and st = ?st1
      and dir = "[?good]" and err = "Return 5 []", THEN conjunct2, THEN conjunct1] foreign
  have step2: "scan_directory M_I386 ''.sys'' [''IoCreateDevice''] ?st1 [?foreign, ?good] =
      scan_directory M_I386 ''.sys'' [''IoCreateDevice''] ?st1 [?good]"
    by auto
  have size: "SizeInBytes \<lparr>content = mini_pe, pos = 2\<rparr> = 362"
    by (simp add: SizeInBytes_def mini_pe_def)
  have step3: "scan_directory M_I386 ''.sys'' [''IoCreateDevice''] ?st1 [?good] =
      Some \<lparr>numResults = 1,
            cout = [Diagnostic ''a.sys'' ''Incorrect magic number from DOS header'',
                    ResultLine 0 ''k.sys'' 362 1]\<rparr>"
    by (simp add: scan_entry_def read_file_mini_pe report_def match_imports_def
          match_import_def size)
  from step1 step2 step3 bad bad_arch foreign foreign_arch show ?thesis by simp
qed

section \<open>Matching\<close>

lemma fold_match_import:
  "fold (match_import n nm) imps (oss, c) =
     (if 1 < n then oss @ map ImportLine (filter (\<lambda>imp. nm = imp) imps) else oss,
      c + int (length (filter (\<lambda>imp. nm = imp) imps)))"
  by (induction imps arbitrary: oss c) (auto simp: match_import_def)

lemma fold_match_names:
  "fold (\<lambda>nm. fold (match_import n nm) imps) names (oss, c) =
     (if 1 < n
      then oss @ map ImportLine (concat (map (\<lambda>nm. filter (\<lambda>imp. nm = imp) imps) names))
      else oss,
      c + int (length (concat (map (\<lambda>nm. filter (\<lambda>imp. nm = imp) imps) names))))"
  by (induction names arbitrary: oss c) (simp_all add: fold_match_import)

lemma fold_match_all:
  "fold (\<lambda>names. fold (\<lambda>nm. fold (match_import n nm) imps) names) ImportThunkNames (oss, c) =
     (if 1 < n then oss @ map ImportLine (spec_matched_names imps ImportThunkNames) else oss,
      c + int (length (spec_matched_names imps ImportThunkNames)))"
  by (induction ImportThunkNames arbitrary: oss c)
     (simp_all add: fold_match_names spec_matched_names_def)

text \<open>
  Claim C7. The nested loops of \<^verbatim>\<open>main\<close> compute what the specification words: the
  matches are the pairs of an extracted name and a requested import that are equal as
  strings (so case matters), in the order read, every duplicate counted; the count is
  their number; a result is emitted exactly when there is a match; and the matched
  names are printed after it only when more than one import was requested.
\<close>

theorem match_imports_counts_exact_matches:
  "match_imports ppszImports ImportThunkNames =
     (if 1 < length ppszImports
      then map ImportLine (spec_matched_names ppszImports ImportThunkNames) else [],
      int (length (spec_matched_names ppszImports ImportThunkNames)))
   \<and> report ppszImports st Path f ImportThunkNames =
     (if spec_matched_names ppszImports ImportThunkNames = [] then st
      else st\<lparr>numResults := numResults st + 1,
              cout := cout st @
                ResultLine (numResults st) Path (SizeInBytes f)
                  (int (length (spec_matched_names ppszImports ImportThunkNames))) #
                (if 1 < length ppszImports
                 then map ImportLine (spec_matched_names ppszImports ImportThunkNames)
                 else [])\<rparr>)"
proof -
  have m: "match_imports ppszImports ImportThunkNames =
     (if 1 < length ppszImports
      then map ImportLine (spec_matched_names ppszImports ImportThunkNames) else [],
      int (length (spec_matched_names ppszImports ImportThunkNames)))"
    by (simp add: match_imports_def fold_match_all)
  then show ?thesis by (simp add: report_def)
qed

theorem match_imports_counts_exact_matches_witness:
  "match_imports [''IoCreateDevice'', ''ZwOpenProcess'']
     [[''ZwOpenProcess'', ''iocreatedevice''], [''ZwOpenProcess'']] =
     ([ImportLine ''ZwOpenProcess'', ImportLine ''ZwOpenProcess''], 2)
   \<and> match_imports [''IoCreateDevice'', ''IoCreateDevice''] [[''IoCreateDevice'']] =
     ([ImportLine ''IoCreateDevice'', ImportLine ''IoCreateDevice''], 2)
   \<and> match_imports [''IoCreateDevice''] [[''IoCreateDevice'']] = ([], 1)
   \<and> report [''IoCreateDevice''] \<lparr>numResults = 3, cout = []\<rparr> ''k.sys''
       \<lparr>content = ''MZ'', pos = 0\<rparr> [[''ZwOpenProcess'']] = \<lparr>numResults = 3, cout = []\<rparr>
   \<and> report [''IoCreateDevice'', ''ZwOpenProcess''] \<lparr>numResults = 3, cout = []\<rparr> ''k.sys''
       \<lparr>content = ''MZ'', pos = 0\<rparr> [[''ZwOpenProcess'']] =
       \<lparr>numResults = 4, cout = [ResultLine 3 ''k.sys'' 2 1, ImportLine ''ZwOpenProcess'']\<rparr>"
proof -
  note m = match_imports_counts_exact_matches [THEN conjunct1]
  note r = match_imports_counts_exact_matches [THEN conjunct2]
  have "match_imports [''IoCreateDevice'', ''ZwOpenProcess'']
     [[''ZwOpenProcess'', ''iocreatedevice''], [''ZwOpenProcess'']] =
     ([ImportLine ''ZwOpenProcess'', ImportLine ''ZwOpenProcess''], 2)"
    by (simp add: m spec_matched_names_def)
  moreover have "match_imports [''IoCreateDevice'', ''IoCreateDevice''] [[''IoCreateDevice'']] =
     ([ImportLine ''IoCreateDevice'', ImportLine ''IoCreateDevice''], 2)"
    by (simp add: m spec_matched_names_def)
  moreover have "match_imports [''IoCreateDevice''] [[''IoCreateDevice'']] = ([], 1)"
    by (simp add: m spec_matched_names_def)
  moreover have "report [''IoCreateDevice''] \<lparr>numResults = 3, cout = []\<rparr> ''k.sys''
       \<lparr>content = ''MZ'', pos = 0\<rparr> [[''ZwOpenProcess'']] = \<lparr>numResults = 3, cout = []\<rparr>"
    by (simp add: r spec_matched_names_def)
  moreover have "report [''IoCreateDevice'', ''ZwOpenProcess''] \<lparr>numResults = 3, cout = []\<rparr>
       ''k.sys'' \<lparr>content = ''MZ'', pos = 0\<rparr> [[''ZwOpenProcess'']] =
       \<lparr>numResults = 4, cout = [ResultLine 3 ''k.sys'' 2 1, ImportLine ''ZwOpenProcess'']\<rparr>"
    by (simp add: r spec_matched_names_def SizeInBytes_def)
  ultimately show ?thesis by (intro conjI)
qed

section \<open>Scanning a file again\<close>

lemma report_output:
  "\<exists>k lines. \<forall>st. report ppszImports st Path f ImportThunkNames =
      st\<lparr>numResults := numResults st + k, cout := cout st @ lines (numResults st)\<rparr> \<and>
      map without_index (lines (numResults st)) = map without_index (lines 0)"
proof -
  obtain oss c where m: "match_imports ppszImports ImportThunkNames = (oss, c)"
    by (cases "match_imports ppszImports ImportThunkNames")
  show ?thesis
  proof (cases "c = 0")
    case True
    show ?thesis
      by (rule exI [where x = 0], rule exI [where x = "\<lambda>n. []"])
         (simp add: report_def m True)
  next
    case False
    show ?thesis
      by (rule exI [where x = 1],
          rule exI [where x = "\<lambda>n. ResultLine n Path (SizeInBytes f) c # oss"])
         (simp add: report_def m False)
  qed
qed

lemma scan_entry_output:
  "\<exists>k lines. \<forall>st. scan_entry a pszExtension ppszImports st e =
      Some (st\<lparr>numResults := numResults st + k, cout := cout st @ lines (numResults st)\<rparr>) \<and>
      map without_index (lines (numResults st)) = map without_index (lines 0)"
proof -
  have skip: ?thesis if "\<forall>st. scan_entry a pszExtension ppszImports st e =
      Some (st\<lparr>cout := cout st @ printed\<rparr>)" for printed
    by (rule exI [where x = 0], rule exI [where x = "\<lambda>n. printed"]) (simp add: that)
  show ?thesis
  proof (cases "extension e \<noteq> pszExtension \<or> bytes e = None")
    case True
    then have "\<forall>st. scan_entry a pszExtension ppszImports st e = Some (st\<lparr>cout := cout st @ []\<rparr>)"
      by (auto simp: scan_entry_def)
    then show ?thesis by (rule skip)
  next
    case False
    then obtain bs where bs: "extension e = pszExtension" "bytes e = Some bs" by auto
    show ?thesis
    proof (cases "read_file a \<lparr>content = bs, pos = 0\<rparr> (path e)")
      case (Inl err)
      from read_file_InlD [OF Inl] obtain rc printed where "err = Return rc printed" by blast
      with Inl bs have "\<forall>st. scan_entry a pszExtension ppszImports st e =
          Some (st\<lparr>cout := cout st @ printed\<rparr>)"
        by (simp add: scan_entry_def)
      then show ?thesis by (rule skip)
    next
      case (Inr r)
      obtain ImportThunkNames f where "r = (ImportThunkNames, f)" by (cases r)
      with Inr bs have scan: "scan_entry a pszExtension ppszImports st e =
          Some (report ppszImports st (path e) f ImportThunkNames)" for st
        by (simp add: scan_entry_def)
      from report_output [of ppszImports "path e" f ImportThunkNames] obtain k lines where
        "\<forall>st. report ppszImports st (path e) f ImportThunkNames =
          st\<lparr>numResults := numResults st + k, cout := cout st @ lines (numResults st)\<rparr> \<and>
          map without_index (lines (numResults st)) = map without_index (lines 0)"
        by (elim exE)
      then show ?thesis
        by (intro exI [where x = k] exI [where x = lines]) (simp add: scan)
    qed
  qed
qed

text \<open>
  Claim C8. Scanning a file always gives a result, and scanning the same bytes for the
  same imports from any two states of the scanner adds the same lines to the output, up
  to the running number of the result: the same path, size in bytes and match count,
  and the same matched names in the same order. The result counter moves by the same
  amount.
\<close>

theorem scan_entry_idempotent:
  "(\<exists>st''. scan_entry a pszExtension ppszImports st e = Some st'')
   \<and> (scan_entry a pszExtension ppszImports st e = Some st1 \<and>
       scan_entry a pszExtension ppszImports st' e = Some st2 \<longrightarrow>
      map without_index (drop (length (cout st)) (cout st1)) =
        map without_index (drop (length (cout st')) (cout st2)) \<and>
      numResults st1 - numResults st = numResults st2 - numResults st')"
proof (intro conjI impI)
  show "\<exists>st''. scan_entry a pszExtension ppszImports st e = Some st''"
    by (rule scan_entry_total)
next
  assume both: "scan_entry a pszExtension ppszImports st e = Some st1 \<and>
       scan_entry a pszExtension ppszImports st' e = Some st2"
  from scan_entry_output [of a pszExtension ppszImports e] obtain k lines where
    all: "\<forall>st. scan_entry a pszExtension ppszImports st e =
      Some (st\<lparr>numResults := numResults st + k, cout := cout st @ lines (numResults st)\<rparr>) \<and>
      map without_index (lines (numResults st)) = map without_index (lines 0)"
    by (elim exE)
  from all have out: "scan_entry a pszExtension ppszImports st e =
      Some (st\<lparr>numResults := numResults st + k, cout := cout st @ lines (numResults st)\<rparr>)"
    and same: "map without_index (lines (numResults st)) = map without_index (lines 0)" for st
    by simp_all
  from both out [of st] out [of st']
  have st1: "st1 = st\<lparr>numResults := numResults st + k, cout := cout st @ lines (numResults st)\<rparr>"
    and st2: "st2 = st'\<lparr>numResults := numResults st' + k,
                         cout := cout st' @ lines (numResults st')\<rparr>"
    by simp_all
  show "map without_index (drop (length (cout st)) (cout st1)) =
        map without_index (drop (length (cout st')) (cout st2))"
    using same [of st] same [of st'] by (simp add: st1 st2)
  show "numResults st1 - numResults st = numResults st2 - numResults st'"
    by (simp add: st1 st2)
qed

theorem scan_entry_idempotent_witness:
  "scan_entry M_I386 ''.sys'' [''IoCreateDevice'', ''ZwOpenProcess''] \<lparr>numResults = 0, cout = []\<rparr>
     \<lparr>path = ''k.sys'', extension = ''.sys'', bytes = Some mini_pe\<rparr> =
     Some \<lparr>numResults = 1, cout = [ResultLine 0 ''k.sys'' 362 1, ImportLine ''IoCreateDevice'']\<rparr>
   \<and> scan_entry M_I386 ''.sys'' [''IoCreateDevice'', ''ZwOpenProcess'']
       \<lparr>numResults = 1, cout = [ResultLine 0 ''k.sys'' 362 1, ImportLine ''IoCreateDevice'']\<rparr>
       \<lparr>path = ''k.sys'', extension = ''.sys'', bytes = Some mini_pe\<rparr> =
     Some \<lparr>numResults = 2,
           cout = [ResultLine 0 ''k.sys'' 362 1, ImportLine ''IoCreateDevice'',
                   ResultLine 1 ''k.sys'' 362 1, ImportLine ''IoCreateDevice'']\<rparr>
   \<and> map without_index [ResultLine 0 ''k.sys'' 362 1, ImportLine ''IoCreateDevice''] =
     map without_index [ResultLine 1 ''k.sys'' 362 1, ImportLine ''IoCreateDevice'']"
proof -
  let ?e = "\<lparr>path = ''k.sys'', extension = ''.sys'', bytes = Some mini_pe\<rparr>"
  let ?imps = "[''IoCreateDevice'', ''ZwOpenProcess'']"
  let ?st = "\<lparr>numResults = 0, cout = []\<rparr>"
  let ?st1 = "\<lparr>numResults = 1,
    cout = [ResultLine 0 ''k.sys'' 362 1, ImportLine ''IoCreateDevice'']\<rparr>"
  let ?st2 = "\<lparr>numResults = 2,
    cout = [ResultLine 0 ''k.sys'' 362 1, ImportLine ''IoCreateDevice'',
            ResultLine 1 ''k.sys'' 362 1, ImportLine ''IoCreateDevice'']\<rparr>"
  have size: "SizeInBytes \<lparr>content = mini_pe, pos = 2\<rparr> = 362"
    by (simp add: SizeInBytes_def mini_pe_def)
  have first: "scan_entry M_I386 ''.sys'' ?imps ?st ?e = Some ?st1"
    by (simp add: scan_entry_def read_file_mini_pe report_def match_imports_def
          match_import_def size)
  have second: "scan_entry M_I386 ''.sys'' ?imps ?st1 ?e = Some ?st2"
    by (simp add: scan_entry_def read_file_mini_pe report_def match_imports_def
          match_import_def size)
  from scan_entry_idempotent [where a = M_I386 and pszExtension = "''.sys''"
      and ppszImports = ?imps and st = ?st and e = ?e and ?st1.0 = ?st1 and st' = ?st1
      and ?st2.0 = ?st2, THEN conjunct2] first second
  have "map without_index (drop (length (cout ?st)) (cout ?st1)) =
        map without_index (drop (length (cout ?st1)) (cout ?st2))"
    by blast
  then have "map without_index [ResultLine 0 ''k.sys'' 362 1, ImportLine ''IoCreateDevice''] =
     map without_index [ResultLine 1 ''k.sys'' 362 1, ImportLine ''IoCreateDevice'']"
    by simp
  with first second show ?thesis by (intro conjI)
qed

end
